theory Spec2Isabelle
  imports Main
begin

section \<open>Data model\<close>

text \<open>
  The services of the repository run against MongoDB collections through Mongoose
  models. A collection is a list of documents in insertion order (the order in which
  \<^verbatim>\<open>findOne\<close> and \<^verbatim>\<open>find\<close> meet them); a document is a record; an
  optional field is an \<open>option\<close>. An \<^verbatim>\<open>ObjectId\<close> is a natural number, and within a
  collection MongoDB keeps the \<^verbatim>\<open>_id\<close>s distinct.
\<close>

type_synonym oid = nat

text \<open>
  Modelled from the spec: the LifeTrainerVisit schema (\<^verbatim>\<open>models/lifeTrainerVisit\<close>) is
  missing; the fields are those of section 3, which are the ones the service reads
  and writes. The attendance fields are optional strings.
\<close>

record visit =
  v_id :: oid
  v_trainer :: oid
  v_schoolId :: string
  v_visitDate :: string
  v_time :: string
  v_standard :: "string option"
  v_status :: string
  v_inTime :: "string option"
  v_outTime :: "string option"
  v_inDate :: "string option"
  v_outDate :: "string option"
  v_file :: "string option"
  v_file1 :: "string option"
  v_createdAt :: nat

text \<open>
  Modelled from the spec: the User schema is missing; the fields are those of
  section 3 (\<open>role\<close> is kept as a string: the service compares it with
  \<^verbatim>\<open>'skillTrainer'\<close>).
\<close>

record user =
  u_id :: oid
  u_firstName :: "string option"
  u_lastName :: "string option"
  u_mobNumber :: "string option"
  u_username :: "string option"
  u_password :: "string option"
  u_role :: string
  u_deviceToken :: "string option"
  u_visits :: "oid list"

text \<open>\<^verbatim>\<open>schoolSchema\<close> of the School model: seven optional strings.\<close>

record school =
  sc_schoolId :: "string option"
  sc_name :: "string option"
  sc_contact_number :: "string option"
  sc_address :: "string option"
  sc_udisecode :: "string option"
  sc_district :: "string option"
  sc_block :: "string option"

text \<open>
  Modelled from the spec: the Student schema is missing; a student is a
  school-scoped record identified by \<open>schoolId\<close>.
\<close>

record student =
  st_id :: oid
  st_schoolId :: string

text \<open>The message handed to \<^verbatim>\<open>admin.messaging().send\<close>.\<close>

record notification =
  n_title :: string
  n_body :: string
  n_token :: string

text \<open>
  Every \<^verbatim>\<open>save\<close>, \<^verbatim>\<open>create\<close> and \<^verbatim>\<open>remove\<close> a service awaits is
  recorded, in order, in the \<open>writes\<close> of the state, so that the order of two writes
  and the absence of any write can be stated.
\<close>

datatype db_write =
  VisitSaved oid
  | VisitRemoved oid
  | UserSaved oid
  | UserCreated oid
  | SchoolSaved "string option"

record db =
  visits :: "visit list"
  users :: "user list"
  schools :: "school list"
  students :: "student list"
  next_oid :: oid
  clock :: nat
  writes :: "db_write list"
  outbox :: "notification list"

text \<open>
  \<^verbatim>\<open>ApiError(statusCode, message)\<close> with the two status codes the services use; the
  \<^verbatim>\<open>TypeError\<close> of reading a property of \<^verbatim>\<open>null\<close>; and the rejection of the
  messaging adapter.
\<close>

datatype http_status = NOT_FOUND | CONFLICT

datatype error =
  ApiError http_status string
  | TypeError
  | MessagingError

section \<open>Persistence primitives\<close>

text \<open>JavaScript truthiness of an optional string: set and not empty.\<close>

fun truthy :: "string option \<Rightarrow> bool" where
  "truthy None = False"
| "truthy (Some s) = (s \<noteq> [])"

definition findOne :: "('a \<Rightarrow> bool) \<Rightarrow> 'a list \<Rightarrow> 'a option" where
  "findOne P ds = find P ds"

definition findVisitById :: "oid \<Rightarrow> visit list \<Rightarrow> visit option" where
  "findVisitById i ds = find (\<lambda>v. v_id v = i) ds"

definition findUserById :: "oid \<Rightarrow> user list \<Rightarrow> user option" where
  "findUserById i ds = find (\<lambda>u. u_id u = i) ds"

text \<open>
  \<^verbatim>\<open>doc.save()\<close> of a new document appends it; of a loaded document it writes the
  document back under its \<^verbatim>\<open>_id\<close>; \<^verbatim>\<open>doc.remove()\<close> deletes by \<^verbatim>\<open>_id\<close>.
\<close>

definition insertVisit :: "visit \<Rightarrow> db \<Rightarrow> db" where
  "insertVisit v s =
     s\<lparr>visits := visits s @ [v], writes := writes s @ [VisitSaved (v_id v)]\<rparr>"

definition saveVisit :: "visit \<Rightarrow> db \<Rightarrow> db" where
  "saveVisit v s =
     s\<lparr>visits := map (\<lambda>d. if v_id d = v_id v then v else d) (visits s),
       writes := writes s @ [VisitSaved (v_id v)]\<rparr>"

definition removeVisit :: "visit \<Rightarrow> db \<Rightarrow> db" where
  "removeVisit v s =
     s\<lparr>visits := filter (\<lambda>d. v_id d \<noteq> v_id v) (visits s),
       writes := writes s @ [VisitRemoved (v_id v)]\<rparr>"

definition saveUser :: "user \<Rightarrow> db \<Rightarrow> db" where
  "saveUser u s =
     s\<lparr>users := map (\<lambda>d. if u_id d = u_id u then u else d) (users s),
       writes := writes s @ [UserSaved (u_id u)]\<rparr>"

section \<open>lifeSkillTrainer.service.js\<close>

subsection \<open>sendNotification\<close>

text \<open>
  \<^verbatim>\<open>utils/firebase\<close> is not among the sources: the adapter is the parameter
  \<open>send\<close>, which tells whether the delivery of a message resolves (\<open>True\<close>) or
  rejects.
\<close>

definition sendNotification ::
  "(notification \<Rightarrow> bool) \<Rightarrow> db \<Rightarrow> string \<Rightarrow> string \<Rightarrow> string \<Rightarrow> error + db" where
  "sendNotification send s deviceToken title body =
     (let message = \<lparr>n_title = title, n_body = body, n_token = deviceToken\<rparr>
      in if send message then Inr (s\<lparr>outbox := outbox s @ [message]\<rparr>)
         else Inl MessagingError)"

subsection \<open>scheduleVisit\<close>

text \<open>
  Modelled from the spec: the LifeTrainerVisit schema is not among the sources; its
  default status is the first state of the lifecycle \<open>scheduled \<rightarrow> completed\<close> of
  section 3.
\<close>

definition default_status :: string where
  "default_status = ''scheduled''"

definition same_slot :: "oid \<Rightarrow> string \<Rightarrow> string \<Rightarrow> string \<Rightarrow> visit \<Rightarrow> bool" where
  "same_slot trainerId schoolId visitDate time v =
     (v_trainer v = trainerId \<and> v_schoolId v = schoolId
      \<and> v_visitDate v = visitDate \<and> v_time v = time)"

definition new_visit :: "db \<Rightarrow> oid \<Rightarrow> string \<Rightarrow> string \<Rightarrow> string \<Rightarrow> visit" where
  "new_visit s trainerId schoolId visitDate time =
     \<lparr>v_id = next_oid s, v_trainer = trainerId, v_schoolId = schoolId,
      v_visitDate = visitDate, v_time = time, v_standard = None,
      v_status = default_status,
      v_inTime = None, v_outTime = None, v_inDate = None, v_outDate = None,
      v_file = None, v_file1 = None, v_createdAt = clock s\<rparr>"

text \<open>
  The result is the value returned or the error thrown, together with the state the
  call leaves: a throwing call keeps the writes it made before it threw.
\<close>

definition scheduleVisit ::
  "(notification \<Rightarrow> bool) \<Rightarrow> db \<Rightarrow> oid \<Rightarrow> string \<Rightarrow> string \<Rightarrow> string
     \<Rightarrow> (error + visit) \<times> db" where
  "scheduleVisit send s trainerId schoolId visitDate time =
     (case findOne (same_slot trainerId schoolId visitDate time) (visits s) of
        Some existingVisit \<Rightarrow>
          (Inl (ApiError CONFLICT ''Visit scheduled already found''), s)
      | None \<Rightarrow>
          (let visit = new_visit s trainerId schoolId visitDate time;
               s1 = insertVisit visit (s\<lparr>next_oid := Suc (next_oid s)\<rparr>)
           in case findUserById trainerId (users s1) of
                None \<Rightarrow> (Inl (ApiError NOT_FOUND ''Trainer not found''), s1)
              | Some trainer0 \<Rightarrow>
                  (let trainer = trainer0\<lparr>u_visits := u_visits trainer0 @ [v_id visit]\<rparr>
                   in case u_deviceToken trainer of
                        None \<Rightarrow> (Inr visit, saveUser trainer s1)
                      | Some deviceToken \<Rightarrow>
                          if deviceToken \<noteq> [] then
                            (let body = ''You have assined visit for'' @ schoolId
                                          @ '' date '' @ visitDate;
                                 title = ''Visits''
                             in case sendNotification send s1 deviceToken title body of
                                  Inl e \<Rightarrow> (Inl e, s1)
                                | Inr s2 \<Rightarrow> (Inr visit, saveUser trainer s2))
                          else (Inr visit, saveUser trainer s1))))"

subsection \<open>getTrainerVisits\<close>








subsection \<open>getVisitsBySchoolId\<close>

text \<open>\<^verbatim>\<open>select('firstName lastName mobNumber')\<close> keeps these and the \<^verbatim>\<open>_id\<close>.\<close>

record counselor =
  c_id :: oid
  c_firstName :: "string option"
  c_lastName :: "string option"
  c_mobNumber :: "string option"

record populated_visit =
  p_visit :: visit
  p_counselor :: "counselor option"
  p_createdAt :: nat

definition select_counselor :: "user \<Rightarrow> counselor" where
  "select_counselor u =
     \<lparr>c_id = u_id u, c_firstName = u_firstName u, c_lastName = u_lastName u,
      c_mobNumber = u_mobNumber u\<rparr>"

text \<open>The \<^verbatim>\<open>for ... of\<close> loop, pushing one entry per visit.\<close>

fun populate :: "user list \<Rightarrow> visit list \<Rightarrow> populated_visit list \<Rightarrow> populated_visit list" where
  "populate us [] populatedVisits = populatedVisits"
| "populate us (visit # rest) populatedVisits =
     (let createdAt = v_createdAt visit;
          counselor = map_option select_counselor
            (findOne (\<lambda>u. u_id u = v_trainer visit \<and> u_role u = ''skillTrainer'') us)
      in populate us rest
           (populatedVisits @
              [\<lparr>p_visit = visit, p_counselor = counselor, p_createdAt = createdAt\<rparr>]))"

definition getVisitsBySchoolId :: "db \<Rightarrow> string \<Rightarrow> error + populated_visit list" where
  "getVisitsBySchoolId s schoolId =
     (let found = filter (\<lambda>v. v_schoolId v = schoolId) (visits s)
      in if length found = 0 then Inl (ApiError NOT_FOUND ''Visits not found'')
         else Inr (populate (users s) found []))"

subsection \<open>getVisitById\<close>

definition getVisitById :: "db \<Rightarrow> oid \<Rightarrow> visit option" where
  "getVisitById s i = findVisitById i (visits s)"

subsection \<open>getSchoolIdsAndStudentCount\<close>

text \<open>\<^verbatim>\<open>[...new Set(xs)]\<close>: the elements of \<open>xs\<close>, each once, in order of first
  appearance.\<close>

definition js_Set :: "'a list \<Rightarrow> 'a list" where
  "js_Set xs = foldl (\<lambda>acc x. if x \<in> set acc then acc else acc @ [x]) [] xs"

text \<open>\<^verbatim>\<open>{ $group: { _id: '$status', count: { $sum: 1 } } }\<close>: one entry per status, with
  the number of documents that have it.\<close>

fun group_add :: "string \<Rightarrow> (string \<times> nat) list \<Rightarrow> (string \<times> nat) list" where
  "group_add k [] = [(k, 1)]"
| "group_add k ((k', c) # gs) =
     (if k' = k then (k', c + 1) # gs else (k', c) # group_add k gs)"

definition group_stage :: "visit list \<Rightarrow> (string \<times> nat) list" where
  "group_stage ds = foldl (\<lambda>gs v. group_add (v_status v) gs) [] ds"

record trainer_report =
  totalSchools :: nat
  totalStudents :: nat
  statusCounts :: "string \<rightharpoonup> nat"

definition getSchoolIdsAndStudentCount :: "db \<Rightarrow> oid \<Rightarrow> trainer_report" where
  "getSchoolIdsAndStudentCount s trainerId =
     (let found = filter (\<lambda>v. v_trainer v = trainerId) (visits s);
          uniqueSchoolIds = js_Set (map v_schoolId found);
          totalSchools = length uniqueSchoolIds;
          totalStudents =
            length (filter (\<lambda>st. st_schoolId st \<in> set uniqueSchoolIds) (students s));
          statusCounts = group_stage (filter (\<lambda>v. v_trainer v = trainerId) (visits s));
          statusCountMap =
            foldl (\<lambda>acc curr. acc(fst curr \<mapsto> snd curr)) Map.empty statusCounts
      in \<lparr>totalSchools = totalSchools, totalStudents = totalStudents,
          statusCounts = statusCountMap\<rparr>)"

subsection \<open>updateVisitById\<close>

text \<open>
  The update body: a key that is absent is \<open>None\<close>; a key that is present carries the
  value assigned, which for an optional field may itself be empty (\<^verbatim>\<open>null\<close>).
\<close>

record update_body =
  b_trainer :: "oid option"
  b_schoolId :: "string option"
  b_visitDate :: "string option"
  b_time :: "string option"
  b_standard :: "string option option"
  b_status :: "string option"
  b_inTime :: "string option option"
  b_outTime :: "string option option"
  b_inDate :: "string option option"
  b_outDate :: "string option option"
  b_file :: "string option option"
  b_file1 :: "string option option"

definition assign :: "'a option \<Rightarrow> 'a \<Rightarrow> 'a" where
  "assign b old = (case b of None \<Rightarrow> old | Some x \<Rightarrow> x)"

definition Object_assign :: "visit \<Rightarrow> update_body \<Rightarrow> visit" where
  "Object_assign result updateBody =
     result\<lparr>v_trainer := assign (b_trainer updateBody) (v_trainer result),
            v_schoolId := assign (b_schoolId updateBody) (v_schoolId result),
            v_visitDate := assign (b_visitDate updateBody) (v_visitDate result),
            v_time := assign (b_time updateBody) (v_time result),
            v_standard := assign (b_standard updateBody) (v_standard result),
            v_status := assign (b_status updateBody) (v_status result),
            v_inTime := assign (b_inTime updateBody) (v_inTime result),
            v_outTime := assign (b_outTime updateBody) (v_outTime result),
            v_inDate := assign (b_inDate updateBody) (v_inDate result),
            v_outDate := assign (b_outDate updateBody) (v_outDate result),
            v_file := assign (b_file updateBody) (v_file result),
            v_file1 := assign (b_file1 updateBody) (v_file1 result)\<rparr>"

definition all_six :: "visit \<Rightarrow> bool" where
  "all_six result =
     (truthy (v_inTime result) \<and> truthy (v_outTime result) \<and> truthy (v_inDate result)
      \<and> truthy (v_outDate result) \<and> truthy (v_file result) \<and> truthy (v_file1 result))"

definition updateVisitById ::
  "db \<Rightarrow> string \<Rightarrow> oid \<Rightarrow> update_body \<Rightarrow> (error + visit) \<times> db" where
  "updateVisitById s schoolId trainer updateBody =
     (case findOne (\<lambda>v. v_schoolId v = schoolId \<and> v_trainer v = trainer) (visits s) of
        None \<Rightarrow> (Inl (ApiError NOT_FOUND ''Visit not found''), s)
      | Some result0 \<Rightarrow>
          (let result = Object_assign result0 updateBody;
               s1 = saveVisit result s
           in if all_six result then
                (let result' = result\<lparr>v_status := ''completed''\<rparr>
                 in (Inr result', saveVisit result' s1))
              else (Inr result, s1)))"

subsection \<open>deleteVisit\<close>

text \<open>\<^verbatim>\<open>MongooseArray.pull\<close> removes every element equal to its argument.\<close>

definition pull :: "oid \<Rightarrow> oid list \<Rightarrow> oid list" where
  "pull i xs = filter (\<lambda>x. x \<noteq> i) xs"

definition deleteVisit :: "db \<Rightarrow> oid \<Rightarrow> (error + visit) \<times> db" where
  "deleteVisit s visitId =
     (case findVisitById visitId (visits s) of
        None \<Rightarrow> (Inl (ApiError NOT_FOUND ''Visit not found''), s)
      | Some visit \<Rightarrow>
          (case findUserById (v_trainer visit) (users s) of
             None \<Rightarrow> (Inl (ApiError NOT_FOUND ''Trainer not found''), s)
           | Some trainer0 \<Rightarrow>
               (let trainer = trainer0\<lparr>u_visits := pull visitId (u_visits trainer0)\<rparr>;
                    s1 = saveUser trainer s;
                    s2 = removeVisit visit s1
                in (Inr visit, s2))))"

section \<open>school.service.js\<close>

subsection \<open>generateSchoolId\<close>

text \<open>
  \<^verbatim>\<open>Math.floor(Math.random() * 900000)\<close> is the parameter of the model: \<open>randomNumber\<close>
  below is that draw plus 100000, printed in decimal after \<^verbatim>\<open>SCH\<close>.
\<close>

fun decimal :: "nat \<Rightarrow> string" where
  "decimal n =
     (if n < 10 then [''0123456789'' ! n]
      else decimal (n div 10) @ [''0123456789'' ! (n mod 10)])"

declare decimal.simps [simp del]

definition generateSchoolId :: "nat \<Rightarrow> string" where
  "generateSchoolId draw = (let randomNumber = draw + 100000 in ''SCH'' @ decimal randomNumber)"

subsection \<open>bulkUpload\<close>

text \<open>
  A row of the batch: the keys the School schema keeps and the three keys the
  companion account is made from. \<open>schoolArray\<close> is \<^verbatim>\<open>null\<close> (\<open>None\<close>) or an object
  whose \<^verbatim>\<open>schools\<close> property may be missing; \<open>csvFilePath\<close> is \<^verbatim>\<open>null\<close> or the
  array of parsed rows (an empty array is truthy).
\<close>

record school_input =
  i_name :: "string option"
  i_contact_number :: "string option"
  i_address :: "string option"
  i_udisecode :: "string option"
  i_district :: "string option"
  i_block :: "string option"
  i_firstname :: "string option"
  i_lastname :: "string option"
  i_mobNumber :: "string option"

record school_array =
  sa_schools :: "school_input list option"

record error_response =
  error :: bool
  message :: string

record nonduplicates =
  totalNonDuplicates :: nat
  nd_data :: "school_input list"

record duplicates =
  totalDuplicates :: nat
  d_data :: "school_input list"

record upload_summary =
  nonduplicates :: nonduplicates
  duplicates :: duplicates

datatype upload_response = Rejected error_response | Uploaded upload_summary

definition new_school :: "school_input \<Rightarrow> string \<Rightarrow> school" where
  "new_school school schoolId =
     \<lparr>sc_schoolId = Some schoolId, sc_name = i_name school,
      sc_contact_number = i_contact_number school, sc_address = i_address school,
      sc_udisecode = i_udisecode school, sc_district = i_district school,
      sc_block = i_block school\<rparr>"

definition createUser :: "user \<Rightarrow> db \<Rightarrow> db" where
  "createUser u s =
     s\<lparr>users := users s @ [u\<lparr>u_id := next_oid s\<rparr>], next_oid := Suc (next_oid s),
       writes := writes s @ [UserCreated (next_oid s)]\<rparr>"

definition school_account :: "school_input \<Rightarrow> string \<Rightarrow> user" where
  "school_account school schoolId =
     \<lparr>u_id = 0, u_firstName = i_firstname school, u_lastName = i_lastname school,
      u_mobNumber = i_mobNumber school, u_username = Some schoolId,
      u_password = Some ''admin@123'', u_role = ''school'', u_deviceToken = None,
      u_visits = []\<rparr>"

text \<open>
  \<^verbatim>\<open>Promise.all\<close> over the mapped callbacks. \<^verbatim>\<open>map\<close> starts every callback, and
  each runs until its first \<^verbatim>\<open>await\<close>: every \<^verbatim>\<open>School.findOne\<close> is issued before
  any reply is handled, so before any callback saves. The database answers the
  requests in the order in which they were issued, and a callback resumes when its
  reply arrives. The call therefore runs in three rounds.

  First round: the lookups, all against the schools as they are before the call.
\<close>

definition find_round :: "db \<Rightarrow> school_input list \<Rightarrow> (school_input \<times> school option) list" where
  "find_round s batch =
     map (\<lambda>school.
            (school, findOne (\<lambda>d. sc_udisecode d = i_udisecode school) (schools s)))
         batch"

text \<open>
  Second round: the callbacks resume in the order of the batch. One whose school was
  found pushes its row on \<open>dups\<close> and ends. Another draws its \<open>schoolId\<close> (draw \<open>k\<close>
  is the \<open>k\<close>-th draw of the call) and saves the new school; \<open>saved\<close> lists the
  callbacks that wait for their save, with the \<open>schoolId\<close> each holds.
\<close>

fun save_round ::
  "(nat \<Rightarrow> nat) \<Rightarrow> nat \<Rightarrow> (school_input \<times> school option) list
     \<Rightarrow> db \<times> (school_input \<times> string) list \<times> school_input list
     \<Rightarrow> db \<times> (school_input \<times> string) list \<times> school_input list" where
  "save_round random k [] acc = acc"
| "save_round random k ((school, Some schoolFound) # rest) (s, saved, dups) =
     save_round random k rest (s, saved, dups @ [school])"
| "save_round random k ((school, None) # rest) (s, saved, dups) =
     (let schoolId = generateSchoolId (random k);
          record = new_school school schoolId;
          s1 = s\<lparr>schools := schools s @ [record],
                 writes := writes s @ [SchoolSaved (sc_schoolId record)]\<rparr>
      in save_round random (Suc k) rest (s1, saved @ [(school, schoolId)], dups))"

text \<open>
  Third round: each callback whose save was answered (\<open>record\<close> is the saved
  document, which is truthy) pushes its row on \<open>records\<close> and creates the account.
\<close>

fun create_round ::
  "(school_input \<times> string) list \<Rightarrow> db \<times> school_input list \<Rightarrow> db \<times> school_input list" where
  "create_round [] acc = acc"
| "create_round ((school, schoolId) # rest) (s, records) =
     create_round rest
       (createUser (school_account school schoolId) s, records @ [school])"

definition bulkUpload ::
  "(nat \<Rightarrow> nat) \<Rightarrow> db \<Rightarrow> school_array option \<Rightarrow> school_input list option
     \<Rightarrow> (error + upload_response) \<times> db" where
  "bulkUpload random s schoolArray csvFilePath =
     (let modifiedSchoolsArray =
            (case csvFilePath of
               Some rows \<Rightarrow> Some \<lparr>sa_schools = Some rows\<rparr>
             | None \<Rightarrow> schoolArray)
      in case modifiedSchoolsArray of
           None \<Rightarrow> (Inl TypeError, s)
         | Some body \<Rightarrow>
             (case sa_schools body of
                None \<Rightarrow> (Inr (Rejected \<lparr>error = True, message = ''missing array''\<rparr>), s)
              | Some batch \<Rightarrow>
                  if length batch = 0
                  then (Inr (Rejected \<lparr>error = True, message = ''missing array''\<rparr>), s)
                  else
                    (case save_round random 0 (find_round s batch) (s, [], []) of
                       (s1, saved, dups) \<Rightarrow>
                         (case create_round saved (s1, []) of
                            (s', records) \<Rightarrow>
                              (Inr (Uploaded
                                 \<lparr>nonduplicates =
                                    \<lparr>totalNonDuplicates = length records,
                                     nd_data = records\<rparr>,
                                  duplicates =
                                    \<lparr>totalDuplicates = length dups, d_data = dups\<rparr>\<rparr>),
                               s')))))"

section \<open>Well-formed visit collections\<close>

text \<open>
  The \<^verbatim>\<open>_id\<close>s of the visits are distinct and were all handed out already. The
  services keep this (section \<open>Properties of the visit ids\<close>), so it holds in
  every state they reach from an empty collection.
\<close>

definition visit_ids_ok :: "db \<Rightarrow> bool" where
  "visit_ids_ok s =
     (distinct (map v_id (visits s)) \<and> (\<forall>v \<in> set (visits s). v_id v < next_oid s))"

section \<open>Example states\<close>

definition trainer1 :: user where
  "trainer1 =
     \<lparr>u_id = 1, u_firstName = Some ''Asha'', u_lastName = Some ''Rao'',
      u_mobNumber = Some ''9000000001'', u_username = Some ''asha'',
      u_password = Some ''secret'', u_role = ''skillTrainer'',
      u_deviceToken = Some ''tok1'', u_visits = []\<rparr>"

definition schoolA :: school where
  "schoolA =
     \<lparr>sc_schoolId = Some ''S1'', sc_name = Some ''Alpha'', sc_contact_number = None,
      sc_address = None, sc_udisecode = Some ''U1'', sc_district = None,
      sc_block = None\<rparr>"

definition schoolB :: school where
  "schoolB =
     \<lparr>sc_schoolId = Some ''S2'', sc_name = Some ''Beta'', sc_contact_number = None,
      sc_address = None, sc_udisecode = Some ''U2'', sc_district = None,
      sc_block = None\<rparr>"

text \<open>One trainer, two schools, three students (two in S1, one in S2), no visit.\<close>

definition db0 :: db where
  "db0 =
     \<lparr>visits = [], users = [trainer1], schools = [schoolA, schoolB],
      students = [\<lparr>st_id = 10, st_schoolId = ''S1''\<rparr>, \<lparr>st_id = 11, st_schoolId = ''S1''\<rparr>,
                  \<lparr>st_id = 12, st_schoolId = ''S2''\<rparr>],
      next_oid = 100, clock = 5, writes = [], outbox = []\<rparr>"

definition always :: "notification \<Rightarrow> bool" where
  "always m = True"

text \<open>The state after trainer 1 was scheduled for S1 on 2024-01-10 at 09:00.\<close>

definition db1 :: db where
  "db1 = snd (scheduleVisit always db0 1 ''S1'' ''2024-01-10'' ''09:00'')"

text \<open>The state after a call for trainer 7, who is not a user of \<open>db0\<close>.\<close>

definition db_orphan :: db where
  "db_orphan = snd (scheduleVisit always db0 7 ''S1'' ''2024-01-10'' ''09:00'')"


text \<open>The state after a second visit of trainer 1 to S1, a day later.\<close>

definition db2 :: db where
  "db2 = snd (scheduleVisit always db1 1 ''S1'' ''2024-01-11'' ''09:00'')"

text \<open>Three visits of trainer 1, to S1, S2 and S1 again.\<close>

definition db_aba :: db where
  "db_aba =
     snd (scheduleVisit always
            (snd (scheduleVisit always db1 1 ''S2'' ''2024-01-11'' ''09:00''))
            1 ''S1'' ''2024-01-12'' ''09:00'')"

text \<open>A batch of three rows: the first has the udisecode of a stored school, the
  other two are new. The draws of the random source are 23456, 23457, ...\<close>

definition input_row :: "string \<Rightarrow> string \<Rightarrow> school_input" where
  "input_row name code =
     \<lparr>i_name = Some name, i_contact_number = None, i_address = None,
      i_udisecode = Some code, i_district = None, i_block = None,
      i_firstname = Some name, i_lastname = None, i_mobNumber = None\<rparr>"

definition batch3 :: "school_input list" where
  "batch3 = [input_row ''Alpha'' ''U1'', input_row ''Gamma'' ''U3'',
               input_row ''Delta'' ''U4'']"

text \<open>Two rows with the same udisecode, which no stored school has.\<close>

definition batch_shared :: "school_input list" where
  "batch_shared = [input_row ''Gamma'' ''U3'', input_row ''Gamma2'' ''U3'']"

text \<open>A stored school without udisecode, and a row without udisecode.\<close>

definition db_nocode :: db where
  "db_nocode = db0\<lparr>schools := [schoolA\<lparr>sc_udisecode := None\<rparr>]\<rparr>"

definition row_nocode :: school_input where
  "row_nocode = (input_row ''Omega'' [])\<lparr>i_udisecode := None\<rparr>"

definition draws :: "nat \<Rightarrow> nat" where
  "draws k = 23456 + k"

definition empty_body :: update_body where
  "empty_body =
     \<lparr>b_trainer = None, b_schoolId = None, b_visitDate = None, b_time = None,
      b_standard = None, b_status = None, b_inTime = None, b_outTime = None,
      b_inDate = None, b_outDate = None, b_file = None, b_file1 = None\<rparr>"

text \<open>\<^verbatim>\<open>{ status: 'completed' }\<close>\<close>

definition status_only :: update_body where
  "status_only = empty_body\<lparr>b_status := Some ''completed''\<rparr>"

text \<open>A body with the six attendance fields.\<close>

definition attendance :: update_body where
  "attendance =
     empty_body\<lparr>b_inTime := Some (Some ''09:05''), b_outTime := Some (Some ''11:00''),
                b_inDate := Some (Some ''2024-01-10''),
                b_outDate := Some (Some ''2024-01-10''),
                b_file := Some (Some ''in.jpg''), b_file1 := Some (Some ''out.jpg'')\<rparr>"

section \<open>Properties of scheduleVisit\<close>

lemma same_slot_new_visit:
  "same_slot t sch d tm (new_visit s t sch d tm)"
  by (simp add: same_slot_def new_visit_def)

lemma scheduleVisit_visits_after:
  assumes "findOne (same_slot t sch d tm) (visits s) = None"
  shows "visits (snd (scheduleVisit send s t sch d tm))
           = visits s @ [new_visit s t sch d tm]"
  using assms
  by (simp add: scheduleVisit_def Let_def insertVisit_def saveUser_def
      sendNotification_def split: option.splits sum.splits)

lemma findOne_Some_iff: "(\<exists>v. findOne P ds = Some v) \<longleftrightarrow> (\<exists>v \<in> set ds. P v)"
  by (induction ds) (auto simp: findOne_def)

lemma findOne_None_iff: "findOne P ds = None \<longleftrightarrow> filter P ds = []"
  by (induction ds) (auto simp: findOne_def)

lemma scheduleVisit_conflict:
  assumes "findOne (same_slot t sch d tm) (visits s) = Some v"
  shows "scheduleVisit send s t sch d tm
           = (Inl (ApiError CONFLICT ''Visit scheduled already found''), s)"
  using assms by (simp add: scheduleVisit_def)

lemma scheduleVisit_then_found:
  "\<exists>v. findOne (same_slot t sch d tm)
          (visits (snd (scheduleVisit send s t sch d tm))) = Some v"
proof (cases "findOne (same_slot t sch d tm) (visits s)")
  case None
  have "new_visit s t sch d tm \<in> set (visits s @ [new_visit s t sch d tm])"
    by simp
  then show ?thesis
    unfolding findOne_Some_iff scheduleVisit_visits_after [OF None]
    using same_slot_new_visit by blast
next
  case (Some v)
  then show ?thesis by (simp add: scheduleVisit_conflict)
qed

text \<open>
  Claim C1. If a visit with the same (trainer, schoolId, visitDate, time) exists,
  \<open>scheduleVisit\<close> throws CONFLICT and leaves the state as it was: no collection
  changes and no write is recorded. Whatever the first call did, a second call for the
  same slot throws CONFLICT without a write; and when no visit held the slot before
  the first call, exactly one visit holds it after the two calls.
\<close>

theorem scheduleVisit_same_slot_twice:
  "((\<exists>v \<in> set (visits s). same_slot t sch d tm v) \<longrightarrow>
      scheduleVisit send s t sch d tm
        = (Inl (ApiError CONFLICT ''Visit scheduled already found''), s))
   \<and> (let s1 = snd (scheduleVisit send s t sch d tm)
      in scheduleVisit send s1 t sch d tm
           = (Inl (ApiError CONFLICT ''Visit scheduled already found''), s1)
         \<and> (filter (same_slot t sch d tm) (visits s) = [] \<longrightarrow>
              length (filter (same_slot t sch d tm) (visits s1)) = 1))"
proof -
  have first: "scheduleVisit send s t sch d tm
        = (Inl (ApiError CONFLICT ''Visit scheduled already found''), s)"
    if "\<exists>v \<in> set (visits s). same_slot t sch d tm v"
  proof -
    from that obtain v where "findOne (same_slot t sch d tm) (visits s) = Some v"
      using findOne_Some_iff [of "same_slot t sch d tm" "visits s"] by blast
    then show ?thesis by (rule scheduleVisit_conflict)
  qed
  define s1 where "s1 = snd (scheduleVisit send s t sch d tm)"
  obtain v where "findOne (same_slot t sch d tm) (visits s1) = Some v"
    unfolding s1_def using scheduleVisit_then_found by blast
  then have second: "scheduleVisit send s1 t sch d tm
        = (Inl (ApiError CONFLICT ''Visit scheduled already found''), s1)"
    by (rule scheduleVisit_conflict)
  have once: "length (filter (same_slot t sch d tm) (visits s1)) = 1"
    if none: "filter (same_slot t sch d tm) (visits s) = []"
  proof -
    from none have "findOne (same_slot t sch d tm) (visits s) = None"
      by (simp add: findOne_None_iff)
    then have "visits s1 = visits s @ [new_visit s t sch d tm]"
      unfolding s1_def by (rule scheduleVisit_visits_after)
    with none show ?thesis by (simp add: same_slot_new_visit)
  qed
  from first second once show ?thesis
    unfolding Let_def s1_def by blast
qed

lemma db1_eq:
  "db1 = db0\<lparr>visits := [new_visit db0 1 ''S1'' ''2024-01-10'' ''09:00''],
             users := [trainer1\<lparr>u_visits := [100]\<rparr>],
             next_oid := 101,
             writes := [VisitSaved 100, UserSaved 1],
             outbox := [\<lparr>n_title = ''Visits'',
                         n_body = ''You have assined visit forS1 date 2024-01-10'',
                         n_token = ''tok1''\<rparr>]\<rparr>"
  by (simp add: db1_def scheduleVisit_def findOne_def findUserById_def db0_def
      trainer1_def new_visit_def insertVisit_def saveUser_def sendNotification_def
      always_def Let_def)

theorem scheduleVisit_same_slot_twice_witness:
  "scheduleVisit always db1 1 ''S1'' ''2024-01-10'' ''09:00''
     = (Inl (ApiError CONFLICT ''Visit scheduled already found''), db1)
   \<and> length (filter (same_slot 1 ''S1'' ''2024-01-10'' ''09:00'') (visits db1)) = 1
   \<and> visits db0 = []"
proof -
  have none: "filter (same_slot 1 ''S1'' ''2024-01-10'' ''09:00'') (visits db0) = []"
    by (simp add: db0_def)
  have empty: "visits db0 = []"
    by (simp add: db0_def)
  have held: "\<exists>v \<in> set (visits db1). same_slot 1 ''S1'' ''2024-01-10'' ''09:00'' v"
    by (simp add: db1_eq same_slot_new_visit)
  from held have "scheduleVisit always db1 1 ''S1'' ''2024-01-10'' ''09:00''
     = (Inl (ApiError CONFLICT ''Visit scheduled already found''), db1)"
    using scheduleVisit_same_slot_twice
      [of db1 1 "''S1''" "''2024-01-10''" "''09:00''" always]
    by blast
  moreover from none
  have "length (filter (same_slot 1 ''S1'' ''2024-01-10'' ''09:00'') (visits db1)) = 1"
    using scheduleVisit_same_slot_twice
      [of db0 1 "''S1''" "''2024-01-10''" "''09:00''" always]
    by (simp add: Let_def db1_def)
  ultimately show ?thesis using empty by blast
qed

text \<open>The example of section 8: another date for the same trainer and school is
  accepted.\<close>

lemma scheduleVisit_next_day:
  "fst (scheduleVisit always db1 1 ''S1'' ''2024-01-11'' ''09:00'')
     = Inr (new_visit db1 1 ''S1'' ''2024-01-11'' ''09:00'')"
  by (simp add: db1_eq scheduleVisit_def findOne_def findUserById_def db0_def
      trainer1_def new_visit_def insertVisit_def saveUser_def sendNotification_def
      always_def same_slot_def Let_def)

lemma scheduleVisit_trainer_missing:
  assumes "findOne (same_slot t sch d tm) (visits s) = None"
      and "findUserById t (users s) = None"
  shows "scheduleVisit send s t sch d tm
           = (Inl (ApiError NOT_FOUND ''Trainer not found''),
              insertVisit (new_visit s t sch d tm) (s\<lparr>next_oid := Suc (next_oid s)\<rparr>))"
  using assms by (simp add: scheduleVisit_def Let_def insertVisit_def)

text \<open>
  Claim C3. The call for trainer 7, who is no user of \<open>db0\<close>, throws NOT_FOUND,
  and the state it leaves holds the visit: \<^verbatim>\<open>visit.save()\<close> runs before
  \<^verbatim>\<open>User.findById\<close>.
\<close>

theorem scheduleVisit_unknown_trainer_keeps_visit:
  "scheduleVisit always db0 7 ''S1'' ''2024-01-10'' ''09:00''
     = (Inl (ApiError NOT_FOUND ''Trainer not found''),
        db0\<lparr>visits := [new_visit db0 7 ''S1'' ''2024-01-10'' ''09:00''],
            next_oid := 101, writes := [VisitSaved 100]\<rparr>)
   \<and> visits db0 = []
   \<and> findUserById 7 (users db0) = None"
  by (simp add: scheduleVisit_def findOne_def findUserById_def db0_def trainer1_def
      new_visit_def insertVisit_def Let_def)

section \<open>Properties of deleteVisit\<close>

lemma find_map_replace:
  assumes "find P xs = Some x" and "P y"
  shows "find P (map (\<lambda>d. if P d then y else d) xs) = Some y"
  using assms by (induction xs) (auto split: if_splits)

lemma find_Some_holds: "find P xs = Some x \<Longrightarrow> P x"
  by (induction xs) (auto split: if_splits)

lemma find_filter_not: "find P (filter (\<lambda>d. \<not> P d) xs) = None"
  by (induction xs) auto

lemma db_orphan_eq:
  "db_orphan = db0\<lparr>visits := [new_visit db0 7 ''S1'' ''2024-01-10'' ''09:00''],
                    next_oid := 101, writes := [VisitSaved 100]\<rparr>"
  by (simp add: db_orphan_def scheduleVisit_def findOne_def findUserById_def db0_def
      trainer1_def new_visit_def insertVisit_def Let_def)

lemma deleteVisit_found:
  assumes v: "findVisitById visitId (visits s) = Some visit"
      and u: "findUserById (v_trainer visit) (users s) = Some trainer"
  shows "deleteVisit s visitId
           = (Inr visit,
              removeVisit visit
                (saveUser (trainer\<lparr>u_visits := pull visitId (u_visits trainer)\<rparr>) s))"
  using assms by (simp add: deleteVisit_def Let_def)

text \<open>
  Claim C4. When the visit and its owning trainer exist, \<open>deleteVisit\<close> returns the
  visit; the trainer as stored afterwards is the trainer as he was, with his visits
  reduced to those other than \<open>visitId\<close>, and every other user is as he was; the
  two writes are the save of the trainer followed by the removal of the visit; and the
  visit can no longer be fetched by its id. When the visit does not exist, or its
  trainer does not, the call throws NOT_FOUND and changes nothing.
\<close>

theorem deleteVisit_removes_reference_then_visit:
  "(findVisitById visitId (visits s) = None \<longrightarrow>
      deleteVisit s visitId = (Inl (ApiError NOT_FOUND ''Visit not found''), s))
   \<and> (\<forall>visit. findVisitById visitId (visits s) = Some visit
         \<and> findUserById (v_trainer visit) (users s) = None \<longrightarrow>
      deleteVisit s visitId = (Inl (ApiError NOT_FOUND ''Trainer not found''), s))
   \<and> (\<forall>visit trainer. findVisitById visitId (visits s) = Some visit
         \<and> findUserById (v_trainer visit) (users s) = Some trainer \<longrightarrow>
      (let s' = snd (deleteVisit s visitId)
       in fst (deleteVisit s visitId) = Inr visit
          \<and> findUserById (v_trainer visit) (users s')
              = Some (trainer\<lparr>u_visits := filter (\<lambda>x. x \<noteq> visitId) (u_visits trainer)\<rparr>)
          \<and> users s'
              = map (\<lambda>d. if u_id d = v_trainer visit
                         then trainer\<lparr>u_visits := filter (\<lambda>x. x \<noteq> visitId) (u_visits trainer)\<rparr>
                         else d) (users s)
          \<and> writes s' = writes s @ [UserSaved (v_trainer visit), VisitRemoved visitId]
          \<and> getVisitById s' visitId = None
          \<and> visits s' = filter (\<lambda>v. v_id v \<noteq> visitId) (visits s)))"
proof (intro conjI allI impI)
  assume "findVisitById visitId (visits s) = None"
  then show "deleteVisit s visitId = (Inl (ApiError NOT_FOUND ''Visit not found''), s)"
    by (simp add: deleteVisit_def)
next
  fix visit
  assume "findVisitById visitId (visits s) = Some visit
            \<and> findUserById (v_trainer visit) (users s) = None"
  then show "deleteVisit s visitId = (Inl (ApiError NOT_FOUND ''Trainer not found''), s)"
    by (simp add: deleteVisit_def)
next
  fix visit trainer
  assume found: "findVisitById visitId (visits s) = Some visit
            \<and> findUserById (v_trainer visit) (users s) = Some trainer"
  define trainer' where
    "trainer' = trainer\<lparr>u_visits := filter (\<lambda>x. x \<noteq> visitId) (u_visits trainer)\<rparr>"
  have tr: "trainer\<lparr>u_visits := pull visitId (u_visits trainer)\<rparr> = trainer'"
    by (simp add: trainer'_def pull_def)
  from found have vid: "v_id visit = visitId"
    using find_Some_holds [of "\<lambda>v. v_id v = visitId" "visits s" visit]
    by (simp add: findVisitById_def)
  from found have uid: "u_id trainer = v_trainer visit"
    using find_Some_holds [of "\<lambda>u. u_id u = v_trainer visit" "users s" trainer]
    by (simp add: findUserById_def)
  have eq: "deleteVisit s visitId = (Inr visit, removeVisit visit (saveUser trainer' s))"
    using found deleteVisit_found [of visitId s visit trainer] by (simp add: tr)
  have users': "users (removeVisit visit (saveUser trainer' s))
      = map (\<lambda>d. if u_id d = v_trainer visit then trainer' else d) (users s)"
    by (simp add: removeVisit_def saveUser_def trainer'_def uid)
  have "find (\<lambda>u. u_id u = v_trainer visit)
          (map (\<lambda>d. if u_id d = v_trainer visit then trainer' else d) (users s))
        = Some trainer'"
    using found by (intro find_map_replace [where x = trainer])
      (simp_all add: findUserById_def trainer'_def uid)
  then have kept: "findUserById (v_trainer visit)
      (users (removeVisit visit (saveUser trainer' s))) = Some trainer'"
    by (simp add: users' findUserById_def)
  have log: "writes (removeVisit visit (saveUser trainer' s))
      = writes s @ [UserSaved (v_trainer visit), VisitRemoved visitId]"
    by (simp add: removeVisit_def saveUser_def trainer'_def uid vid)
  have rest: "visits (removeVisit visit (saveUser trainer' s))
      = filter (\<lambda>v. v_id v \<noteq> visitId) (visits s)"
    by (simp add: removeVisit_def saveUser_def vid)
  have gone: "getVisitById (removeVisit visit (saveUser trainer' s)) visitId = None"
    unfolding getVisitById_def findVisitById_def rest
    using find_filter_not [of "\<lambda>v. v_id v = visitId" "visits s"] by simp
  show "let s' = snd (deleteVisit s visitId)
       in fst (deleteVisit s visitId) = Inr visit
          \<and> findUserById (v_trainer visit) (users s')
              = Some (trainer\<lparr>u_visits := filter (\<lambda>x. x \<noteq> visitId) (u_visits trainer)\<rparr>)
          \<and> users s'
              = map (\<lambda>d. if u_id d = v_trainer visit
                         then trainer\<lparr>u_visits := filter (\<lambda>x. x \<noteq> visitId) (u_visits trainer)\<rparr>
                         else d) (users s)
          \<and> writes s' = writes s @ [UserSaved (v_trainer visit), VisitRemoved visitId]
          \<and> getVisitById s' visitId = None
          \<and> visits s' = filter (\<lambda>v. v_id v \<noteq> visitId) (visits s)"
    unfolding Let_def eq trainer'_def [symmetric]
    using kept users' log rest gone by simp
qed

lemma db2_eq:
  "db2 = db1\<lparr>visits := [new_visit db0 1 ''S1'' ''2024-01-10'' ''09:00'',
                         new_visit db1 1 ''S1'' ''2024-01-11'' ''09:00''],
             users := [trainer1\<lparr>u_visits := [100, 101]\<rparr>],
             next_oid := 102,
             writes := [VisitSaved 100, UserSaved 1, VisitSaved 101, UserSaved 1],
             outbox := [\<lparr>n_title = ''Visits'',
                         n_body = ''You have assined visit forS1 date 2024-01-10'',
                         n_token = ''tok1''\<rparr>,
                        \<lparr>n_title = ''Visits'',
                         n_body = ''You have assined visit forS1 date 2024-01-11'',
                         n_token = ''tok1''\<rparr>]\<rparr>"
  by (simp add: db2_def db1_eq scheduleVisit_def findOne_def findUserById_def db0_def
      trainer1_def new_visit_def insertVisit_def saveUser_def sendNotification_def
      always_def same_slot_def Let_def)

text \<open>
  In \<open>db2\<close> trainer 1 owns the visits 100 and 101: deleting 100 leaves him with 101.
\<close>

theorem deleteVisit_removes_reference_then_visit_witness:
  "deleteVisit db0 100 = (Inl (ApiError NOT_FOUND ''Visit not found''), db0)
   \<and> deleteVisit db_orphan 100 = (Inl (ApiError NOT_FOUND ''Trainer not found''), db_orphan)
   \<and> fst (deleteVisit db2 100) = Inr (new_visit db0 1 ''S1'' ''2024-01-10'' ''09:00'')
   \<and> findUserById 1 (users (snd (deleteVisit db2 100)))
       = Some (trainer1\<lparr>u_visits := [101]\<rparr>)
   \<and> users (snd (deleteVisit db2 100)) = [trainer1\<lparr>u_visits := [101]\<rparr>]
   \<and> getVisitById (snd (deleteVisit db2 100)) 100 = None
   \<and> visits (snd (deleteVisit db2 100)) = [new_visit db1 1 ''S1'' ''2024-01-11'' ''09:00'']
   \<and> writes (snd (deleteVisit db2 100))
       = [VisitSaved 100, UserSaved 1, VisitSaved 101, UserSaved 1,
          UserSaved 1, VisitRemoved 100]"
proof -
  let ?v0 = "new_visit db0 1 ''S1'' ''2024-01-10'' ''09:00''"
  let ?v1 = "new_visit db1 1 ''S1'' ''2024-01-11'' ''09:00''"
  have a: "findVisitById 100 (visits db0) = None"
    by (simp add: db0_def findVisitById_def)
  have b: "findVisitById 100 (visits db_orphan)
             = Some (new_visit db0 7 ''S1'' ''2024-01-10'' ''09:00'')
           \<and> findUserById (v_trainer (new_visit db0 7 ''S1'' ''2024-01-10'' ''09:00''))
               (users db_orphan) = None"
    by (simp add: db_orphan_eq findVisitById_def findUserById_def new_visit_def db0_def
        trainer1_def)
  have vs: "visits db2 = [?v0, ?v1]" and us: "users db2 = [trainer1\<lparr>u_visits := [100, 101]\<rparr>]"
    and w: "writes db2 = [VisitSaved 100, UserSaved 1, VisitSaved 101, UserSaved 1]"
    by (simp_all add: db2_eq)
  have i0: "v_id ?v0 = 100" and i1: "v_id ?v1 = 101" and t: "v_trainer ?v0 = 1"
    by (simp_all add: new_visit_def db0_def db1_eq)
  have c: "findVisitById 100 (visits db2) = Some ?v0
           \<and> findUserById (v_trainer ?v0) (users db2)
               = Some (trainer1\<lparr>u_visits := [100, 101]\<rparr>)"
    unfolding vs us
    by (simp add: findVisitById_def findUserById_def new_visit_def db0_def db1_eq
        trainer1_def)
  have p: "trainer1\<lparr>u_visits := [100, 101]\<rparr>
             \<lparr>u_visits := filter (\<lambda>x. x \<noteq> 100)
                            (u_visits (trainer1\<lparr>u_visits := [100, 101]\<rparr>))\<rparr>
           = trainer1\<lparr>u_visits := [101]\<rparr>"
    by (simp add: trainer1_def)
  have m: "map (\<lambda>d. if u_id d = 1 then trainer1\<lparr>u_visits := [101]\<rparr> else d)
             [trainer1\<lparr>u_visits := [100, 101]\<rparr>] = [trainer1\<lparr>u_visits := [101]\<rparr>]"
    by (simp add: trainer1_def)
  have f: "filter (\<lambda>v. v_id v \<noteq> 100) [?v0, ?v1] = [?v1]"
    by (simp add: new_visit_def db0_def db1_eq)
  from a have 1: "deleteVisit db0 100 = (Inl (ApiError NOT_FOUND ''Visit not found''), db0)"
    using deleteVisit_removes_reference_then_visit [of 100 db0] by blast
  from b have 2: "deleteVisit db_orphan 100
      = (Inl (ApiError NOT_FOUND ''Trainer not found''), db_orphan)"
    using deleteVisit_removes_reference_then_visit [of 100 db_orphan] by blast
  from c have 3: "let s' = snd (deleteVisit db2 100)
       in fst (deleteVisit db2 100) = Inr ?v0
          \<and> findUserById (v_trainer ?v0) (users s')
              = Some (trainer1\<lparr>u_visits := [100, 101]\<rparr>
                       \<lparr>u_visits := filter (\<lambda>x. x \<noteq> 100)
                            (u_visits (trainer1\<lparr>u_visits := [100, 101]\<rparr>))\<rparr>)
          \<and> users s'
              = map (\<lambda>d. if u_id d = v_trainer ?v0
                         then trainer1\<lparr>u_visits := [100, 101]\<rparr>
                           \<lparr>u_visits := filter (\<lambda>x. x \<noteq> 100)
                              (u_visits (trainer1\<lparr>u_visits := [100, 101]\<rparr>))\<rparr>
                         else d) (users db2)
          \<and> writes s' = writes db2 @ [UserSaved (v_trainer ?v0), VisitRemoved 100]
          \<and> getVisitById s' 100 = None
          \<and> visits s' = filter (\<lambda>v. v_id v \<noteq> 100) (visits db2)"
    using deleteVisit_removes_reference_then_visit [of 100 db2] by blast
  from 3 have 4: "fst (deleteVisit db2 100) = Inr ?v0
     \<and> findUserById 1 (users (snd (deleteVisit db2 100)))
         = Some (trainer1\<lparr>u_visits := [101]\<rparr>)
     \<and> users (snd (deleteVisit db2 100)) = [trainer1\<lparr>u_visits := [101]\<rparr>]
     \<and> getVisitById (snd (deleteVisit db2 100)) 100 = None
     \<and> visits (snd (deleteVisit db2 100)) = [?v1]
     \<and> writes (snd (deleteVisit db2 100))
       = [VisitSaved 100, UserSaved 1, VisitSaved 101, UserSaved 1,
          UserSaved 1, VisitRemoved 100]"
    unfolding Let_def p t w us vs m f by (simp add: findUserById_def trainer1_def)
  from 1 2 4 show ?thesis by blast
qed

section \<open>Properties of updateVisitById\<close>

lemma find_in_set: "x \<in> set xs \<Longrightarrow> P x \<Longrightarrow> \<exists>y. find P xs = Some y"
  by (induction xs) auto

lemma map_replace_nth:
  assumes "distinct (map key xs)" and "i < length xs" and "k = key (xs ! i)"
  shows "map (\<lambda>d. if key d = k then z else d) xs = xs[i := z]"
proof (rule nth_equalityI)
  show "length (map (\<lambda>d. if key d = k then z else d) xs) = length (xs[i := z])"
    by simp
next
  fix j
  assume "j < length (map (\<lambda>d. if key d = k then z else d) xs)"
  then have j: "j < length xs" by simp
  have "key (xs ! j) = key (xs ! i) \<longleftrightarrow> j = i"
    using assms(1,2) j nth_eq_iff_index_eq [of "map key xs" j i] by simp
  then show "map (\<lambda>d. if key d = k then z else d) xs ! j = xs[i := z] ! j"
    using j assms(2,3) by (auto simp: nth_list_update)
qed

lemma v_id_Object_assign: "v_id (Object_assign result b) = v_id result"
  by (simp add: Object_assign_def)

lemma v_status_Object_assign:
  "v_status (Object_assign result b)
     = (case b_status b of None \<Rightarrow> v_status result | Some st \<Rightarrow> st)"
  by (simp add: Object_assign_def assign_def)

lemma all_six_status: "all_six (v\<lparr>v_status := st\<rparr>) = all_six v"
  by (simp add: all_six_def)

lemma updateVisitById_found:
  assumes "findOne (\<lambda>v. v_schoolId v = sch \<and> v_trainer v = t) (visits s) = Some result0"
      and "merged = Object_assign result0 b"
      and "final = (if all_six merged then merged\<lparr>v_status := ''completed''\<rparr> else merged)"
  shows "fst (updateVisitById s sch t b) = Inr final"
    and "visits (snd (updateVisitById s sch t b))
           = map (\<lambda>d. if v_id d = v_id result0 then final else d) (visits s)"
    and "writes (snd (updateVisitById s sch t b))
           = writes s @ (if all_six merged
                         then [VisitSaved (v_id result0), VisitSaved (v_id result0)]
                         else [VisitSaved (v_id result0)])"
  using assms
  by (simp_all add: updateVisitById_def Let_def saveVisit_def
      v_id_Object_assign o_def if_distrib cong: if_cong)

lemma updateVisitById_missing:
  assumes "findOne (\<lambda>v. v_schoolId v = sch \<and> v_trainer v = t) (visits s) = None"
  shows "updateVisitById s sch t b = (Inl (ApiError NOT_FOUND ''Visit not found''), s)"
  using assms by (simp add: updateVisitById_def)

text \<open>
  Claim C2, as amended. On an existing visit (the first with the school and the
  trainer), the visit stored under its id after the call is the one returned; if the
  six attendance fields are all non-empty after the merge its status is
  \<open>completed\<close>; otherwise its status is the status after the merge: the one the
  update body carries if it carries one, the prior status if not.
\<close>

theorem updateVisitById_status_after_merge:
  "findOne (\<lambda>v. v_schoolId v = sch \<and> v_trainer v = t) (visits s) = Some result0 \<longrightarrow>
     (let merged = Object_assign result0 b;
          s' = snd (updateVisitById s sch t b)
      in \<exists>persisted.
           findVisitById (v_id result0) (visits s') = Some persisted
           \<and> fst (updateVisitById s sch t b) = Inr persisted
           \<and> all_six persisted = all_six merged
           \<and> (all_six merged \<longrightarrow> v_status persisted = ''completed'')
           \<and> (\<not> all_six merged \<longrightarrow>
                v_status persisted
                  = (case b_status b of None \<Rightarrow> v_status result0 | Some st \<Rightarrow> st)))"
proof
  assume found: "findOne (\<lambda>v. v_schoolId v = sch \<and> v_trainer v = t) (visits s)
                   = Some result0"
  define merged where "merged = Object_assign result0 b"
  define final where
    "final = (if all_six merged then merged\<lparr>v_status := ''completed''\<rparr> else merged)"
  note upd = updateVisitById_found [OF found merged_def final_def]
  have "result0 \<in> set (visits s)"
    using found by (auto simp: findOne_def find_Some_iff)
  then obtain y where y: "find (\<lambda>v. v_id v = v_id result0) (visits s) = Some y"
    using find_in_set [of result0 "visits s" "\<lambda>v. v_id v = v_id result0"] by blast
  have fid: "v_id final = v_id result0"
    by (simp add: final_def merged_def v_id_Object_assign)
  have stored: "findVisitById (v_id result0) (visits (snd (updateVisitById s sch t b)))
                  = Some final"
    unfolding findVisitById_def upd(2)
    using find_map_replace [OF y, of final] fid by simp
  have six: "all_six final = all_six merged"
    by (simp add: final_def all_six_status)
  have compl: "all_six merged \<Longrightarrow> v_status final = ''completed''"
    by (simp add: final_def)
  have kept: "\<not> all_six merged \<Longrightarrow>
      v_status final = (case b_status b of None \<Rightarrow> v_status result0 | Some st \<Rightarrow> st)"
    by (simp add: final_def merged_def v_status_Object_assign)
  show "let merged = Object_assign result0 b;
          s' = snd (updateVisitById s sch t b)
      in \<exists>persisted.
           findVisitById (v_id result0) (visits s') = Some persisted
           \<and> fst (updateVisitById s sch t b) = Inr persisted
           \<and> all_six persisted = all_six merged
           \<and> (all_six merged \<longrightarrow> v_status persisted = ''completed'')
           \<and> (\<not> all_six merged \<longrightarrow>
                v_status persisted
                  = (case b_status b of None \<Rightarrow> v_status result0 | Some st \<Rightarrow> st))"
    unfolding Let_def merged_def [symmetric]
    using stored upd(1) six compl kept by blast
qed

lemma visits_db1: "visits db1 = [new_visit db0 1 ''S1'' ''2024-01-10'' ''09:00'']"
  by (simp add: db1_eq)

lemma findOne_db1:
  "findOne (\<lambda>v. v_schoolId v = ''S1'' \<and> v_trainer v = 1) (visits db1)
     = Some (new_visit db0 1 ''S1'' ''2024-01-10'' ''09:00'')"
  by (simp add: visits_db1 findOne_def new_visit_def)

theorem updateVisitById_status_after_merge_witness:
  "(\<exists>persisted.
      findVisitById 100 (visits (snd (updateVisitById db1 ''S1'' 1 attendance)))
        = Some persisted
      \<and> v_status persisted = ''completed'' \<and> all_six persisted)
   \<and> (\<exists>persisted.
      findVisitById 100 (visits (snd (updateVisitById db1 ''S1'' 1 empty_body)))
        = Some persisted
      \<and> v_status persisted = ''scheduled'' \<and> \<not> all_six persisted)"
proof -
  have six: "all_six (Object_assign (new_visit db0 1 ''S1'' ''2024-01-10'' ''09:00'') attendance)"
    by (simp add: all_six_def Object_assign_def assign_def attendance_def empty_body_def
        new_visit_def)
  have nosix: "\<not> all_six (Object_assign (new_visit db0 1 ''S1'' ''2024-01-10'' ''09:00'') empty_body)"
    by (simp add: all_six_def Object_assign_def assign_def empty_body_def new_visit_def)
  have i: "v_id (new_visit db0 1 ''S1'' ''2024-01-10'' ''09:00'') = 100"
    by (simp add: new_visit_def db0_def)
  have st: "(case b_status empty_body of
               None \<Rightarrow> v_status (new_visit db0 1 ''S1'' ''2024-01-10'' ''09:00'')
             | Some st \<Rightarrow> st) = ''scheduled''"
    by (simp add: empty_body_def new_visit_def default_status_def)
  have a: "\<exists>persisted.
      findVisitById 100 (visits (snd (updateVisitById db1 ''S1'' 1 attendance)))
        = Some persisted
      \<and> v_status persisted = ''completed'' \<and> all_six persisted"
    using updateVisitById_status_after_merge
      [of "''S1''" 1 db1 "new_visit db0 1 ''S1'' ''2024-01-10'' ''09:00''" attendance]
      findOne_db1 six
    unfolding Let_def i by blast
  have b: "\<exists>persisted.
      findVisitById 100 (visits (snd (updateVisitById db1 ''S1'' 1 empty_body)))
        = Some persisted
      \<and> v_status persisted = ''scheduled'' \<and> \<not> all_six persisted"
    using updateVisitById_status_after_merge
      [of "''S1''" 1 db1 "new_visit db0 1 ''S1'' ''2024-01-10'' ''09:00''" empty_body]
      findOne_db1 nosix
    unfolding Let_def i st by blast
  from a b show ?thesis by blast
qed

text \<open>
  Claim C2 as stated fails. The visit of \<open>db1\<close> is \<open>scheduled\<close> and has no
  attendance field; after the update \<^verbatim>\<open>{ status: 'completed' }\<close> it is stored as
  \<open>completed\<close>, still without any attendance field: the status is \<open>completed\<close>
  although the six fields are not set, and an update that leaves them unset did not
  keep the prior status.
\<close>

theorem updateVisitById_status_only_counterexample:
  "map v_status (visits db1) = [''scheduled'']
   \<and> map v_status (visits (snd (updateVisitById db1 ''S1'' 1 status_only))) = [''completed'']
   \<and> map all_six (visits (snd (updateVisitById db1 ''S1'' 1 status_only))) = [False]"
proof -
  let ?v = "new_visit db0 1 ''S1'' ''2024-01-10'' ''09:00''"
  have nosix: "\<not> all_six (Object_assign ?v status_only)"
    by (simp add: all_six_def Object_assign_def assign_def status_only_def empty_body_def
        new_visit_def)
  have st: "v_status (Object_assign ?v status_only) = ''completed''"
    by (simp add: v_status_Object_assign status_only_def empty_body_def)
  have prior: "v_status ?v = ''scheduled''"
    by (simp add: new_visit_def default_status_def)
  have "visits (snd (updateVisitById db1 ''S1'' 1 status_only))
          = [Object_assign ?v status_only]"
    using updateVisitById_found(2) [OF findOne_db1 refl refl, of status_only] nosix
    by (simp add: visits_db1)
  then show ?thesis
    using nosix st prior by (simp add: visits_db1)
qed

text \<open>
  Claim C9. The visit is looked up by school and trainer alone. When the ids of the
  collection are distinct and position \<open>i\<close> holds the first visit of that school and
  trainer, the collection after the call is the one before with position \<open>i\<close>
  replaced by the merged visit (marked \<open>completed\<close> when its six attendance fields
  are set): every other position, so every other visit of that trainer and school,
  is as it was.
\<close>

theorem updateVisitById_first_match_only:
  "distinct (map v_id (visits s)) \<and> i < length (visits s)
   \<and> v_schoolId (visits s ! i) = sch \<and> v_trainer (visits s ! i) = t
   \<and> (\<forall>j<i. \<not> (v_schoolId (visits s ! j) = sch \<and> v_trainer (visits s ! j) = t)) \<longrightarrow>
     (let merged = Object_assign (visits s ! i) b;
          updated = (if all_six merged then merged\<lparr>v_status := ''completed''\<rparr> else merged);
          s' = snd (updateVisitById s sch t b)
      in fst (updateVisitById s sch t b) = Inr updated
         \<and> visits s' = (visits s)[i := updated]
         \<and> (\<forall>j<length (visits s). j \<noteq> i \<longrightarrow> visits s' ! j = visits s ! j))"
proof
  assume asm: "distinct (map v_id (visits s)) \<and> i < length (visits s)
   \<and> v_schoolId (visits s ! i) = sch \<and> v_trainer (visits s ! i) = t
   \<and> (\<forall>j<i. \<not> (v_schoolId (visits s ! j) = sch \<and> v_trainer (visits s ! j) = t))"
  define merged where "merged = Object_assign (visits s ! i) b"
  define updated where
    "updated = (if all_six merged then merged\<lparr>v_status := ''completed''\<rparr> else merged)"
  from asm have found:
    "findOne (\<lambda>v. v_schoolId v = sch \<and> v_trainer v = t) (visits s) = Some (visits s ! i)"
    unfolding findOne_def find_Some_iff by blast
  note upd = updateVisitById_found [OF found merged_def updated_def]
  have repl: "visits (snd (updateVisitById s sch t b)) = (visits s)[i := updated]"
    unfolding upd(2) using asm by (intro map_replace_nth) simp_all
  show "let merged = Object_assign (visits s ! i) b;
          updated = (if all_six merged then merged\<lparr>v_status := ''completed''\<rparr> else merged);
          s' = snd (updateVisitById s sch t b)
      in fst (updateVisitById s sch t b) = Inr updated
         \<and> visits s' = (visits s)[i := updated]
         \<and> (\<forall>j<length (visits s). j \<noteq> i \<longrightarrow> visits s' ! j = visits s ! j)"
    unfolding Let_def merged_def [symmetric] updated_def [symmetric]
    using upd(1) repl by simp
qed

theorem updateVisitById_first_match_only_witness:
  "visits (snd (updateVisitById db2 ''S1'' 1 attendance))
     = [(Object_assign (new_visit db0 1 ''S1'' ''2024-01-10'' ''09:00'') attendance)
          \<lparr>v_status := ''completed''\<rparr>,
        new_visit db1 1 ''S1'' ''2024-01-11'' ''09:00'']"
proof -
  have v: "visits db2 = [new_visit db0 1 ''S1'' ''2024-01-10'' ''09:00'',
                         new_visit db1 1 ''S1'' ''2024-01-11'' ''09:00'']"
    by (simp add: db2_eq)
  have six: "all_six (Object_assign (new_visit db0 1 ''S1'' ''2024-01-10'' ''09:00'') attendance)"
    by (simp add: all_six_def Object_assign_def assign_def attendance_def empty_body_def
        new_visit_def)
  have h: "distinct (map v_id (visits db2)) \<and> 0 < length (visits db2)
   \<and> v_schoolId (visits db2 ! 0) = ''S1'' \<and> v_trainer (visits db2 ! 0) = 1
   \<and> (\<forall>j<0. \<not> (v_schoolId (visits db2 ! j) = ''S1'' \<and> v_trainer (visits db2 ! j) = 1))"
    by (simp add: v new_visit_def db1_eq db0_def)
  show ?thesis
    using updateVisitById_first_match_only [of db2 0 "''S1''" 1 attendance] h six
    unfolding Let_def by (simp add: v)
qed

section \<open>Properties of getVisitsBySchoolId\<close>

lemma populate_eq:
  "populate us ds acc
     = acc @ map (\<lambda>visit.
         \<lparr>p_visit = visit,
          p_counselor = map_option select_counselor
            (findOne (\<lambda>u. u_id u = v_trainer visit \<and> u_role u = ''skillTrainer'') us),
          p_createdAt = v_createdAt visit\<rparr>) ds"
  by (induction ds arbitrary: acc) (simp_all add: Let_def)

text \<open>
  Claim C10. \<open>getVisitsBySchoolId\<close> throws NOT_FOUND exactly when the school has no
  visit. Otherwise it returns one entry per visit of the school, in order, and the
  entry of a visit whose trainer is no user with role \<open>skillTrainer\<close> carries no
  counselor.
\<close>

theorem getVisitsBySchoolId_unresolved_trainer:
  "(getVisitsBySchoolId s sch = Inl (ApiError NOT_FOUND ''Visits not found'')
      \<longleftrightarrow> filter (\<lambda>v. v_schoolId v = sch) (visits s) = [])
   \<and> (filter (\<lambda>v. v_schoolId v = sch) (visits s) \<noteq> [] \<longrightarrow>
        (\<exists>ps. getVisitsBySchoolId s sch = Inr ps
           \<and> map p_visit ps = filter (\<lambda>v. v_schoolId v = sch) (visits s)
           \<and> (\<forall>p \<in> set ps.
                 p_createdAt p = v_createdAt (p_visit p)
                 \<and> ((\<forall>u \<in> set (users s).
                        \<not> (u_id u = v_trainer (p_visit p) \<and> u_role u = ''skillTrainer''))
                      \<longrightarrow> p_counselor p = None))))"
proof (intro conjI impI)
  show "getVisitsBySchoolId s sch = Inl (ApiError NOT_FOUND ''Visits not found'')
      \<longleftrightarrow> filter (\<lambda>v. v_schoolId v = sch) (visits s) = []"
    by (simp add: getVisitsBySchoolId_def Let_def)
next
  let ?found = "filter (\<lambda>v. v_schoolId v = sch) (visits s)"
  let ?entry = "\<lambda>visit.
         \<lparr>p_visit = visit,
          p_counselor = map_option select_counselor
            (findOne (\<lambda>u. u_id u = v_trainer visit \<and> u_role u = ''skillTrainer'') (users s)),
          p_createdAt = v_createdAt visit\<rparr>"
  assume some: "?found \<noteq> []"
  then have res: "getVisitsBySchoolId s sch = Inr (map ?entry ?found)"
    by (simp add: getVisitsBySchoolId_def Let_def populate_eq)
  have vis: "map p_visit (map ?entry ?found) = ?found"
    by (simp add: o_def)
  have each: "p_createdAt p = v_createdAt (p_visit p)
                 \<and> ((\<forall>u \<in> set (users s).
                        \<not> (u_id u = v_trainer (p_visit p) \<and> u_role u = ''skillTrainer''))
                      \<longrightarrow> p_counselor p = None)"
    if "p \<in> set (map ?entry ?found)" for p
  proof -
    from that obtain visit where p: "p = ?entry visit" by auto
    have "findOne (\<lambda>u. u_id u = v_trainer visit \<and> u_role u = ''skillTrainer'') (users s)
            = None"
      if "\<forall>u \<in> set (users s). \<not> (u_id u = v_trainer visit \<and> u_role u = ''skillTrainer'')"
      using that by (simp add: findOne_def find_None_iff)
    then show ?thesis by (simp add: p)
  qed
  from res vis each
  show "\<exists>ps. getVisitsBySchoolId s sch = Inr ps
           \<and> map p_visit ps = ?found
           \<and> (\<forall>p \<in> set ps.
                 p_createdAt p = v_createdAt (p_visit p)
                 \<and> ((\<forall>u \<in> set (users s).
                        \<not> (u_id u = v_trainer (p_visit p) \<and> u_role u = ''skillTrainer''))
                      \<longrightarrow> p_counselor p = None))"
    by blast
qed

theorem getVisitsBySchoolId_unresolved_trainer_witness:
  "getVisitsBySchoolId db0 ''S1'' = Inl (ApiError NOT_FOUND ''Visits not found'')
   \<and> (\<exists>p. getVisitsBySchoolId db_orphan ''S1'' = Inr [p]
         \<and> p_visit p = new_visit db0 7 ''S1'' ''2024-01-10'' ''09:00''
         \<and> p_counselor p = None)"
proof -
  let ?v = "new_visit db0 7 ''S1'' ''2024-01-10'' ''09:00''"
  have none: "filter (\<lambda>v. v_schoolId v = ''S1'') (visits db0) = []"
    by (simp add: db0_def)
  have one: "filter (\<lambda>v. v_schoolId v = ''S1'') (visits db_orphan) = [?v]"
    by (simp add: db_orphan_eq new_visit_def)
  have nouser: "\<forall>u \<in> set (users db_orphan).
                  \<not> (u_id u = v_trainer ?v \<and> u_role u = ''skillTrainer'')"
    by (simp add: db_orphan_eq db0_def trainer1_def new_visit_def)
  from none have a: "getVisitsBySchoolId db0 ''S1''
      = Inl (ApiError NOT_FOUND ''Visits not found'')"
    using getVisitsBySchoolId_unresolved_trainer [of db0 "''S1''"] by blast
  from one obtain ps where ps: "getVisitsBySchoolId db_orphan ''S1'' = Inr ps"
      "map p_visit ps = [?v]"
      "\<forall>p \<in> set ps. (\<forall>u \<in> set (users db_orphan).
                        \<not> (u_id u = v_trainer (p_visit p) \<and> u_role u = ''skillTrainer''))
                      \<longrightarrow> p_counselor p = None"
    using getVisitsBySchoolId_unresolved_trainer [of db_orphan "''S1''"] by auto
  from ps(2) obtain p where p: "ps = [p]" "p_visit p = ?v"
    by (cases ps) auto
  with ps(3) nouser have "p_counselor p = None" by simp
  with a ps(1) p show ?thesis by blast
qed

section \<open>Properties of getTrainerVisits\<close>








section \<open>Properties of getSchoolIdsAndStudentCount\<close>

lemma js_Set_fold:
  "distinct acc \<Longrightarrow>
     distinct (foldl (\<lambda>acc x. if x \<in> set acc then acc else acc @ [x]) acc xs)
     \<and> set (foldl (\<lambda>acc x. if x \<in> set acc then acc else acc @ [x]) acc xs)
         = set acc \<union> set xs"
  by (induction xs arbitrary: acc) auto

lemma distinct_js_Set: "distinct (js_Set xs)"
  using js_Set_fold [of "[]" xs] by (simp add: js_Set_def)

lemma set_js_Set: "set (js_Set xs) = set xs"
  using js_Set_fold [of "[]" xs] by (simp add: js_Set_def)

lemma length_js_Set: "length (js_Set xs) = card (set xs)"
  using distinct_card [OF distinct_js_Set, of xs] by (simp add: set_js_Set)

lemma count_in_finite:
  assumes "finite A"
  shows "length (filter (\<lambda>x. f x \<in> A) xs) = (\<Sum>a\<in>A. length (filter (\<lambda>x. f x = a) xs))"
proof (induction xs)
  case Nil
  then show ?case by simp
next
  case (Cons x xs)
  show ?case
  proof (cases "f x \<in> A")
    case True
    have "(\<Sum>a\<in>A. length (filter (\<lambda>x. f x = a) (x # xs)))
            = (\<Sum>a\<in>A. (if f x = a then 1 else 0) + length (filter (\<lambda>x. f x = a) xs))"
      by (intro sum.cong) auto
    also have "\<dots> = (\<Sum>a\<in>A. if f x = a then 1 else 0)
                      + (\<Sum>a\<in>A. length (filter (\<lambda>x. f x = a) xs))"
      by (simp add: sum.distrib)
    also have "(\<Sum>a\<in>A. if f x = a then 1 else 0) = (1::nat)"
      using assms True by simp
    finally show ?thesis using True Cons.IH by simp
  next
    case False
    have "(\<Sum>a\<in>A. length (filter (\<lambda>x. f x = a) (x # xs)))
            = (\<Sum>a\<in>A. length (filter (\<lambda>x. f x = a) xs))"
      using False by (intro sum.cong) auto
    then show ?thesis using False Cons.IH by simp
  qed
qed

lemma keys_group_add:
  "set (map fst (group_add k gs)) = insert k (set (map fst gs))"
  by (induction k gs rule: group_add.induct) auto

lemma distinct_group_add:
  "distinct (map fst gs) \<Longrightarrow> distinct (map fst (group_add k gs))"
proof (induction gs)
  case Nil
  then show ?case by simp
next
  case (Cons g gs)
  obtain k' c where g: "g = (k', c)" by (cases g)
  show ?case
  proof (cases "k' = k")
    case True
    with Cons.prems g show ?thesis by simp
  next
    case False
    from Cons.prems g have "k' \<notin> set (map fst gs)" by simp
    with False have "k' \<notin> set (map fst (group_add k gs))"
      unfolding keys_group_add by simp
    with Cons g False show ?thesis by simp
  qed
qed

lemma map_of_group_add:
  "map_of (group_add k gs) k'
     = (if k' = k then Some (case map_of gs k of None \<Rightarrow> 1 | Some c \<Rightarrow> c + 1)
        else map_of gs k')"
  by (induction gs) auto

lemma group_fold:
  "distinct (map fst gs) \<Longrightarrow>
     distinct (map fst (foldl (\<lambda>gs v. group_add (v_status v) gs) gs ds))
     \<and> map_of (foldl (\<lambda>gs v. group_add (v_status v) gs) gs ds) k
         = (let n = length (filter (\<lambda>v. v_status v = k) ds)
            in case map_of gs k of
                 None \<Rightarrow> if n = 0 then None else Some n
               | Some c \<Rightarrow> Some (c + n))"
proof (induction ds arbitrary: gs)
  case Nil
  then show ?case by (simp split: option.splits)
next
  case (Cons v ds)
  from Cons.prems have d: "distinct (map fst (group_add (v_status v) gs))"
    by (rule distinct_group_add)
  show ?case
    using Cons.IH [OF d]
    by (auto simp: map_of_group_add Let_def split: option.splits)
qed

lemma reduce_apply:
  "distinct (map fst gs) \<Longrightarrow>
     foldl (\<lambda>acc curr. acc(fst curr \<mapsto> snd curr)) m gs k
       = (case map_of gs k of None \<Rightarrow> m k | Some c \<Rightarrow> Some c)"
proof (induction gs arbitrary: m)
  case Nil
  then show ?case by simp
next
  case (Cons g gs)
  obtain k' c where g: "g = (k', c)" by (cases g)
  from Cons.prems g have "k' \<notin> fst ` set gs" by simp
  then have "map_of gs k' = None"
    by (simp add: map_of_eq_None_iff)
  with Cons g show ?case
    by (auto split: option.splits)
qed

text \<open>
  Claim C6. For a trainer, \<open>totalSchools\<close> is the number of distinct \<open>schoolId\<close>s
  among his visits, \<open>totalStudents\<close> is the sum, over these school ids, of the number
  of students of the school, and \<open>statusCounts\<close> maps each status that one of his
  visits has to the number of his visits with it (and no other key).
\<close>

theorem getSchoolIdsAndStudentCount_report:
  "(let mine = filter (\<lambda>v. v_trainer v = t) (visits s);
        ids = set (map v_schoolId mine);
        r = getSchoolIdsAndStudentCount s t
    in totalSchools r = card ids
       \<and> totalStudents r
           = (\<Sum>sid\<in>ids. length (filter (\<lambda>st. st_schoolId st = sid) (students s)))
       \<and> (\<forall>k. statusCounts r k
              = (let n = length (filter (\<lambda>v. v_status v = k) mine)
                 in if n = 0 then None else Some n)))"
proof -
  define mine where "mine = filter (\<lambda>v. v_trainer v = t) (visits s)"
  define ids where "ids = set (map v_schoolId mine)"
  define r where "r = getSchoolIdsAndStudentCount s t"
  have a: "totalSchools r = card ids"
    by (simp add: r_def getSchoolIdsAndStudentCount_def Let_def length_js_Set ids_def
        mine_def)
  have "totalStudents r = length (filter (\<lambda>st. st_schoolId st \<in> ids) (students s))"
    by (simp add: r_def getSchoolIdsAndStudentCount_def Let_def set_js_Set ids_def
        mine_def)
  also have "\<dots> = (\<Sum>sid\<in>ids. length (filter (\<lambda>st. st_schoolId st = sid) (students s)))"
    by (rule count_in_finite) (simp add: ids_def)
  finally have b: "totalStudents r
      = (\<Sum>sid\<in>ids. length (filter (\<lambda>st. st_schoolId st = sid) (students s)))" .
  have c: "statusCounts r k
             = (let n = length (filter (\<lambda>v. v_status v = k) mine)
                in if n = 0 then None else Some n)" for k
  proof -
    have g: "distinct (map fst (group_stage mine))
             \<and> map_of (group_stage mine) k
                 = (let n = length (filter (\<lambda>v. v_status v = k) mine)
                    in if n = 0 then None else Some n)"
      using group_fold [of "[]" mine k] by (simp add: group_stage_def)
    have "statusCounts r k
            = foldl (\<lambda>acc curr. acc(fst curr \<mapsto> snd curr)) Map.empty (group_stage mine) k"
      by (simp add: r_def getSchoolIdsAndStudentCount_def Let_def mine_def)
    also have "\<dots> = map_of (group_stage mine) k"
      using g by (simp add: reduce_apply split: option.splits)
    finally show ?thesis using g by simp
  qed
  from a b c show ?thesis
    unfolding Let_def mine_def [symmetric] ids_def [symmetric] r_def [symmetric]
    by (simp add: Let_def)
qed

lemma db_aba_schoolIds:
  "map v_schoolId (filter (\<lambda>v. v_trainer v = 1) (visits db_aba)) = [''S1'', ''S2'', ''S1'']"
  by (simp add: db_aba_def db1_eq scheduleVisit_def findOne_def findUserById_def db0_def
      trainer1_def new_visit_def insertVisit_def saveUser_def sendNotification_def
      always_def same_slot_def default_status_def Let_def)

lemma db_aba_statuses:
  "map v_status (filter (\<lambda>v. v_trainer v = 1) (visits db_aba))
     = [''scheduled'', ''scheduled'', ''scheduled'']"
  by (simp add: db_aba_def db1_eq scheduleVisit_def findOne_def findUserById_def db0_def
      trainer1_def new_visit_def insertVisit_def saveUser_def sendNotification_def
      always_def same_slot_def default_status_def Let_def)

lemma db_aba_students:
  "map st_schoolId (students db_aba) = [''S1'', ''S1'', ''S2'']"
  by (simp add: db_aba_def db1_eq scheduleVisit_def findOne_def findUserById_def db0_def
      trainer1_def new_visit_def insertVisit_def saveUser_def sendNotification_def
      always_def same_slot_def default_status_def Let_def)

lemma length_filter_eq_map:
  "length (filter (\<lambda>x. f x = k) xs) = length (filter (\<lambda>y. y = k) (map f xs))"
  by (induction xs) auto

text \<open>The example of section 8: visits to S1, S2 and S1, two students in S1 and one
  in S2.\<close>

theorem getSchoolIdsAndStudentCount_report_witness:
  "totalSchools (getSchoolIdsAndStudentCount db_aba 1) = 2
   \<and> totalStudents (getSchoolIdsAndStudentCount db_aba 1) = 3
   \<and> statusCounts (getSchoolIdsAndStudentCount db_aba 1) ''scheduled'' = Some 3
   \<and> statusCounts (getSchoolIdsAndStudentCount db_aba 1) ''completed'' = None"
proof -
  let ?mine = "filter (\<lambda>v. v_trainer v = 1) (visits db_aba)"
  have ids: "set (map v_schoolId ?mine) = {''S1'', ''S2''}"
    unfolding db_aba_schoolIds by auto
  have c: "card {''S1'', ''S2''} = 2"
    by simp
  have s1: "length (filter (\<lambda>st. st_schoolId st = ''S1'') (students db_aba)) = 2"
    unfolding length_filter_eq_map [of st_schoolId] db_aba_students by simp
  have s2: "length (filter (\<lambda>st. st_schoolId st = ''S2'') (students db_aba)) = 1"
    unfolding length_filter_eq_map [of st_schoolId] db_aba_students by simp
  have k1: "length (filter (\<lambda>v. v_status v = ''scheduled'') ?mine) = 3"
    unfolding length_filter_eq_map [of v_status] db_aba_statuses by simp
  have k2: "length (filter (\<lambda>v. v_status v = ''completed'') ?mine) = 0"
    unfolding length_filter_eq_map [of v_status] db_aba_statuses by simp
  have sm: "(\<Sum>sid\<in>{''S1'', ''S2''}.
              length (filter (\<lambda>st. st_schoolId st = sid) (students db_aba))) = 3"
    using s1 s2 by simp
  have "totalSchools (getSchoolIdsAndStudentCount db_aba 1) = card {''S1'', ''S2''}
    \<and> totalStudents (getSchoolIdsAndStudentCount db_aba 1)
        = (\<Sum>sid\<in>{''S1'', ''S2''}.
              length (filter (\<lambda>st. st_schoolId st = sid) (students db_aba)))
    \<and> (\<forall>k. statusCounts (getSchoolIdsAndStudentCount db_aba 1) k
              = (let n = length (filter (\<lambda>v. v_status v = k) ?mine)
                 in if n = 0 then None else Some n))"
    using getSchoolIdsAndStudentCount_report [of 1 db_aba]
    unfolding Let_def ids by blast
  then have a: "totalSchools (getSchoolIdsAndStudentCount db_aba 1) = 2"
    and b: "totalStudents (getSchoolIdsAndStudentCount db_aba 1) = 3"
    and g1: "statusCounts (getSchoolIdsAndStudentCount db_aba 1) ''scheduled''
              = (let n = length (filter (\<lambda>v. v_status v = ''scheduled'') ?mine)
                 in if n = 0 then None else Some n)"
    and g2: "statusCounts (getSchoolIdsAndStudentCount db_aba 1) ''completed''
              = (let n = length (filter (\<lambda>v. v_status v = ''completed'') ?mine)
                 in if n = 0 then None else Some n)"
    unfolding c sm by blast+
  from g1 have g1': "statusCounts (getSchoolIdsAndStudentCount db_aba 1) ''scheduled'' = Some 3"
    unfolding k1 Let_def by simp
  from g2 have g2': "statusCounts (getSchoolIdsAndStudentCount db_aba 1) ''completed'' = None"
    unfolding k2 Let_def by simp
  from a b g1' g2' show ?thesis by blast
qed

section \<open>Properties of the visit ids\<close>

lemma scheduleVisit_state:
  "snd (scheduleVisit send s t sch d tm) = s
   \<or> (visits (snd (scheduleVisit send s t sch d tm)) = visits s @ [new_visit s t sch d tm]
      \<and> next_oid (snd (scheduleVisit send s t sch d tm)) = Suc (next_oid s))"
  by (simp add: scheduleVisit_def Let_def insertVisit_def saveUser_def
      sendNotification_def split: option.splits sum.splits)

lemma ids_below_fresh:
  assumes "\<forall>v \<in> set ds. v_id v < n"
  shows "n \<notin> set (map v_id ds)"
proof
  assume "n \<in> set (map v_id ds)"
  then obtain v where "v \<in> set ds" and "v_id v = n" by auto
  with assms show False by fastforce
qed

lemma scheduleVisit_ids_ok:
  assumes "visit_ids_ok s"
  shows "visit_ids_ok (snd (scheduleVisit send s t sch d tm))"
proof (cases "snd (scheduleVisit send s t sch d tm) = s")
  case True
  with assms show ?thesis by simp
next
  case False
  with scheduleVisit_state [of send s t sch d tm]
  have v: "visits (snd (scheduleVisit send s t sch d tm))
             = visits s @ [new_visit s t sch d tm]"
    and n: "next_oid (snd (scheduleVisit send s t sch d tm)) = Suc (next_oid s)"
    by blast+
  have i: "v_id (new_visit s t sch d tm) = next_oid s"
    by (simp add: new_visit_def)
  from assms have "next_oid s \<notin> set (map v_id (visits s))"
    unfolding visit_ids_ok_def by (intro ids_below_fresh) blast
  with assms show ?thesis
    unfolding visit_ids_ok_def v n by (simp add: i less_Suc_eq)
qed

lemma map_v_id_replace:
  "map v_id (map (\<lambda>d. if v_id d = v_id v then v else d) ds) = map v_id ds"
  by (induction ds) auto

lemma saveVisit_ids_ok:
  assumes "visit_ids_ok s"
  shows "visit_ids_ok (saveVisit v s)"
proof -
  have "visits (saveVisit v s) = map (\<lambda>d. if v_id d = v_id v then v else d) (visits s)"
    by (simp add: saveVisit_def)
  then have m: "map v_id (visits (saveVisit v s)) = map v_id (visits s)"
    by (simp only: map_v_id_replace)
  have c: "next_oid (saveVisit v s) = next_oid s"
    by (simp add: saveVisit_def)
  from assms have "distinct (map v_id (visits s))"
    and "\<forall>i \<in> set (map v_id (visits s)). i < next_oid s"
    by (simp_all add: visit_ids_ok_def)
  then have "distinct (map v_id (visits (saveVisit v s)))"
    and "\<forall>i \<in> set (map v_id (visits (saveVisit v s))). i < next_oid (saveVisit v s)"
    unfolding m c by blast+
  then show ?thesis
    by (simp add: visit_ids_ok_def)
qed

lemma updateVisitById_ids_ok:
  assumes "visit_ids_ok s"
  shows "visit_ids_ok (snd (updateVisitById s sch t b))"
  using assms
  by (simp add: updateVisitById_def Let_def saveVisit_ids_ok split: option.splits)

lemma deleteVisit_ids_ok:
  assumes "visit_ids_ok s"
  shows "visit_ids_ok (snd (deleteVisit s i))"
  using assms
  by (auto simp: deleteVisit_def Let_def removeVisit_def saveUser_def visit_ids_ok_def
      distinct_map_filter split: option.splits)

section \<open>Properties of bulkUpload\<close>

lemma generateSchoolId_example: "generateSchoolId 23456 = ''SCH123456''"
  by (simp add: generateSchoolId_def decimal.simps)

lemma findOne_udisecode:
  "findOne (\<lambda>d. sc_udisecode d = c) scs = None \<longleftrightarrow> c \<notin> set (map sc_udisecode scs)"
  by (auto simp: findOne_def find_None_iff)

lemma findOne_udisecode_Some:
  "(\<exists>y. findOne (\<lambda>d. sc_udisecode d = c) scs = Some y) \<longleftrightarrow> c \<in> sc_udisecode ` set scs"
  using findOne_udisecode [of c scs]
  by (cases "findOne (\<lambda>d. sc_udisecode d = c) scs") auto

text \<open>The rows the first round finds no school for, and those it finds one for.\<close>

lemma find_round_fresh:
  "map fst (filter (\<lambda>p. snd p = None) (find_round s batch))
     = filter (\<lambda>r. i_udisecode r \<notin> set (map sc_udisecode (schools s))) batch"
  unfolding find_round_def
  by (induction batch) (simp_all add: findOne_udisecode)

lemma find_round_old:
  "map fst (filter (\<lambda>p. snd p \<noteq> None) (find_round s batch))
     = filter (\<lambda>r. i_udisecode r \<in> set (map sc_udisecode (schools s))) batch"
  unfolding find_round_def
  by (induction batch) (simp_all add: findOne_udisecode_Some)

lemma save_round_spec:
  "\<exists>s' ids.
     save_round random k found (s, saved, dups)
       = (s', saved @ zip (map fst (filter (\<lambda>p. snd p = None) found)) ids,
              dups @ map fst (filter (\<lambda>p. snd p \<noteq> None) found))
     \<and> length ids = length (filter (\<lambda>p. snd p = None) found)
     \<and> schools s'
         = schools s @ map (\<lambda>(r, sid). new_school r sid)
                         (zip (map fst (filter (\<lambda>p. snd p = None) found)) ids)
     \<and> users s' = users s \<and> visits s' = visits s \<and> students s' = students s
     \<and> next_oid s' = next_oid s"
proof (induction found arbitrary: k s saved dups)
  case Nil
  show ?case
    by (intro exI [of _ s] exI [of _ "[]"]) simp
next
  case (Cons p found)
  obtain r f where p: "p = (r, f)" by (cases p)
  show ?case
  proof (cases f)
    case (Some d)
    from Cons.IH [of k s saved "dups @ [r]"]
    obtain s' ids where
      "save_round random k found (s, saved, dups @ [r])
         = (s', saved @ zip (map fst (filter (\<lambda>p. snd p = None) found)) ids,
                (dups @ [r]) @ map fst (filter (\<lambda>p. snd p \<noteq> None) found))"
      "length ids = length (filter (\<lambda>p. snd p = None) found)"
      "schools s'
         = schools s @ map (\<lambda>(r, sid). new_school r sid)
                         (zip (map fst (filter (\<lambda>p. snd p = None) found)) ids)"
      "users s' = users s" "visits s' = visits s" "students s' = students s"
      "next_oid s' = next_oid s"
      by blast
    then show ?thesis
      using p Some by (intro exI [of _ s'] exI [of _ ids]) simp
  next
    case None
    define sid where "sid = generateSchoolId (random k)"
    define s1 where "s1 = s\<lparr>schools := schools s @ [new_school r sid],
                 writes := writes s @ [SchoolSaved (sc_schoolId (new_school r sid))]\<rparr>"
    from Cons.IH [of "Suc k" s1 "saved @ [(r, sid)]" dups]
    obtain s' ids where ih:
      "save_round random (Suc k) found (s1, saved @ [(r, sid)], dups)
         = (s', (saved @ [(r, sid)]) @ zip (map fst (filter (\<lambda>p. snd p = None) found)) ids,
                dups @ map fst (filter (\<lambda>p. snd p \<noteq> None) found))"
      "length ids = length (filter (\<lambda>p. snd p = None) found)"
      "schools s'
         = schools s1 @ map (\<lambda>(r, sid). new_school r sid)
                         (zip (map fst (filter (\<lambda>p. snd p = None) found)) ids)"
      "users s' = users s1" "visits s' = visits s1" "students s' = students s1"
      "next_oid s' = next_oid s1"
      by blast
    have step: "save_round random k ((r, None) # found) (s, saved, dups)
        = save_round random (Suc k) found (s1, saved @ [(r, sid)], dups)"
      by (simp add: Let_def s1_def sid_def)
    show ?thesis
      unfolding p None step using ih
      by (intro exI [of _ s'] exI [of _ "sid # ids"]) (simp add: s1_def)
  qed
qed

lemma create_round_spec:
  "\<exists>s' NU.
     create_round saved (s, records) = (s', records @ map fst saved)
     \<and> users s' = users s @ NU
     \<and> list_all2 (\<lambda>(r, sid) u. \<exists>i. u = (school_account r sid)\<lparr>u_id := i\<rparr>) saved NU
     \<and> schools s' = schools s \<and> visits s' = visits s \<and> students s' = students s"
proof (induction saved arbitrary: s records)
  case Nil
  show ?case
    by (intro exI [of _ s] exI [of _ "[]"]) simp
next
  case (Cons p saved)
  obtain r sid where p: "p = (r, sid)" by (cases p)
  define s1 where "s1 = createUser (school_account r sid) s"
  have us1: "users s1 = users s @ [(school_account r sid)\<lparr>u_id := next_oid s\<rparr>]"
    and o1: "schools s1 = schools s" "visits s1 = visits s" "students s1 = students s"
    by (simp_all add: s1_def createUser_def)
  from Cons.IH [of s1 "records @ [r]"]
  obtain s' NU where ih:
    "create_round saved (s1, records @ [r]) = (s', (records @ [r]) @ map fst saved)"
    "users s' = users s1 @ NU"
    "list_all2 (\<lambda>(r, sid) u. \<exists>i. u = (school_account r sid)\<lparr>u_id := i\<rparr>) saved NU"
    "schools s' = schools s1" "visits s' = visits s1" "students s' = students s1"
    by blast
  have head: "\<exists>i. (school_account r sid)\<lparr>u_id := next_oid s\<rparr> = (school_account r sid)\<lparr>u_id := i\<rparr>"
    by blast
  show ?case
    using ih head
    by (intro exI [of _ s'] exI [of _ "(school_account r sid)\<lparr>u_id := next_oid s\<rparr> # NU"])
       (simp add: p s1_def [symmetric] us1 o1)
qed

lemma pair_up:
  assumes "length ids = length fresh"
      and "list_all2 (\<lambda>(r, sid) u. \<exists>i. u = (school_account r sid)\<lparr>u_id := i\<rparr>)
             (zip fresh ids) NU"
  shows "list_all2 (\<lambda>r (sc, u). \<exists>sid i. sc = new_school r sid
                                      \<and> u = (school_account r sid)\<lparr>u_id := i\<rparr>)
           fresh (zip (map (\<lambda>(r, sid). new_school r sid) (zip fresh ids)) NU)"
  using assms
proof (induction fresh arbitrary: ids NU)
  case Nil
  then show ?case by simp
next
  case (Cons r fresh)
  from Cons.prems(1) obtain sid ids' where ids: "ids = sid # ids'" "length ids' = length fresh"
    by (cases ids) auto
  from Cons.prems(2) ids obtain u NU' where nu: "NU = u # NU'"
      "\<exists>i. u = (school_account r sid)\<lparr>u_id := i\<rparr>"
      "list_all2 (\<lambda>(r, sid) u. \<exists>i. u = (school_account r sid)\<lparr>u_id := i\<rparr>)
             (zip fresh ids') NU'"
    by (auto simp: list_all2_Cons1)
  from Cons.IH [OF ids(2) nu(3)] nu(2) show ?case
    by (auto simp: ids nu(1))
qed

lemma list_all2_right:
  "list_all2 P xs ys \<Longrightarrow> y \<in> set ys \<Longrightarrow> \<exists>x. P x y"
  by (induction rule: list_all2_induct) auto

lemma bulkUpload_batch:
  assumes "batch \<noteq> []"
      and "csvFilePath = Some batch
           \<or> (csvFilePath = None \<and> schoolArray = Some \<lparr>sa_schools = Some batch\<rparr>)"
      and "save_round random 0 (find_round s batch) (s, [], []) = (s1, saved, dups)"
      and "create_round saved (s1, []) = (s', records)"
  shows "bulkUpload random s schoolArray csvFilePath
           = (Inr (Uploaded
                \<lparr>nonduplicates = \<lparr>totalNonDuplicates = length records, nd_data = records\<rparr>,
                 duplicates = \<lparr>totalDuplicates = length dups, d_data = dups\<rparr>\<rparr>), s')"
  using assms by (auto simp: bulkUpload_def)

text \<open>
  Claim C5, as amended. For a non-empty batch of N rows with pairwise different
  \<open>udisecode\<close>s, of which K have the \<open>udisecode\<close> of a stored school (a row without
  \<open>udisecode\<close> has that of a stored school without one), \<open>bulkUpload\<close> reports K
  duplicates and N - K non-duplicates; the schools after the call are those before
  followed by one new school for each non-duplicate row, and the users those before
  followed by one account for each, whose username is the school's \<open>schoolId\<close>,
  whose role is \<open>school\<close> and whose password is \<open>admin@123\<close>.
\<close>

theorem bulkUpload_counts:
  "batch \<noteq> [] \<and> distinct (map i_udisecode batch)
   \<and> (csvFilePath = Some batch
       \<or> (csvFilePath = None \<and> schoolArray = Some \<lparr>sa_schools = Some batch\<rparr>)) \<longrightarrow>
     (let stored = set (map sc_udisecode (schools s));
          K = length (filter (\<lambda>r. i_udisecode r \<in> stored) batch);
          fresh = filter (\<lambda>r. i_udisecode r \<notin> stored) batch
      in \<exists>summary s' NS NU.
           bulkUpload random s schoolArray csvFilePath = (Inr (Uploaded summary), s')
           \<and> totalDuplicates (duplicates summary) = K
           \<and> totalNonDuplicates (nonduplicates summary) = length batch - K
           \<and> d_data (duplicates summary) = filter (\<lambda>r. i_udisecode r \<in> stored) batch
           \<and> nd_data (nonduplicates summary) = fresh
           \<and> schools s' = schools s @ NS \<and> users s' = users s @ NU
           \<and> length NS = length batch - K \<and> length NU = length batch - K
           \<and> list_all2 (\<lambda>r (sc, u). \<exists>sid i. sc = new_school r sid
                                      \<and> u = (school_account r sid)\<lparr>u_id := i\<rparr>)
                fresh (zip NS NU)
           \<and> (\<forall>u \<in> set NU. u_role u = ''school'' \<and> u_password u = Some ''admin@123'')
           \<and> map u_username NU = map sc_schoolId NS)"
proof
  assume asm: "batch \<noteq> [] \<and> distinct (map i_udisecode batch)
   \<and> (csvFilePath = Some batch
       \<or> (csvFilePath = None \<and> schoolArray = Some \<lparr>sa_schools = Some batch\<rparr>))"
  define stored where "stored = set (map sc_udisecode (schools s))"
  define K where "K = length (filter (\<lambda>r. i_udisecode r \<in> stored) batch)"
  define fresh where "fresh = filter (\<lambda>r. i_udisecode r \<notin> stored) batch"
  define old where "old = filter (\<lambda>r. i_udisecode r \<in> stored) batch"
  let ?pair = "\<lambda>r (sc, u). \<exists>sid i. sc = new_school r sid
                                      \<and> u = (school_account r sid)\<lparr>u_id := i\<rparr>"
  have fr: "map fst (filter (\<lambda>p. snd p = None) (find_round s batch)) = fresh"
    unfolding fresh_def stored_def by (rule find_round_fresh)
  have ol: "map fst (filter (\<lambda>p. snd p \<noteq> None) (find_round s batch)) = old"
    unfolding old_def stored_def by (rule find_round_old)
  have lf: "length (filter (\<lambda>p. snd p = None) (find_round s batch)) = length fresh"
    using arg_cong [OF fr, of length] by simp
  from save_round_spec [of random 0 "find_round s batch" s "[]" "[]"]
  obtain s1 ids where sv:
      "save_round random 0 (find_round s batch) (s, [], []) = (s1, zip fresh ids, old)"
      "length ids = length fresh"
      "schools s1 = schools s @ map (\<lambda>(r, sid). new_school r sid) (zip fresh ids)"
      "users s1 = users s"
    unfolding fr ol lf by auto
  define NS where "NS = map (\<lambda>(r, sid). new_school r sid) (zip fresh ids)"
  from create_round_spec [of "zip fresh ids" s1 "[]"]
  obtain s' NU where cr:
      "create_round (zip fresh ids) (s1, []) = (s', map fst (zip fresh ids))"
      "users s' = users s1 @ NU"
      "list_all2 (\<lambda>(r, sid) u. \<exists>i. u = (school_account r sid)\<lparr>u_id := i\<rparr>)
         (zip fresh ids) NU"
      "schools s' = schools s1"
    by auto
  from sv(2) have recs: "map fst (zip fresh ids) = fresh"
    by simp
  have lNS: "length NS = length fresh"
    using sv(2) by (simp add: NS_def)
  from cr(3) have "length (zip fresh ids) = length NU"
    by (rule list_all2_lengthD)
  with sv(2) have lNU: "length NU = length fresh"
    by simp
  have paired: "list_all2 ?pair fresh (zip NS NU)"
    unfolding NS_def using sv(2) cr(3) by (rule pair_up)
  have "length (filter (\<lambda>r. i_udisecode r \<in> stored) batch)
          + length (filter (\<lambda>r. \<not> i_udisecode r \<in> stored) batch) = length batch"
    by (rule sum_length_filter_compl)
  then have nk: "length fresh = length batch - K"
    by (simp add: fresh_def K_def)
  have each: "u_username u = sc_schoolId sc \<and> u_role u = ''school''
              \<and> u_password u = Some ''admin@123''"
    if "(sc, u) \<in> set (zip NS NU)" for sc u
  proof -
    from paired that obtain r where "?pair r (sc, u)"
      using list_all2_right [of ?pair fresh "zip NS NU" "(sc, u)"] by blast
    then show ?thesis
      by (auto simp: school_account_def new_school_def)
  qed
  have roles: "\<forall>u \<in> set NU. u_role u = ''school'' \<and> u_password u = Some ''admin@123''"
  proof
    fix u
    assume "u \<in> set NU"
    then obtain j where j: "j < length NU" "NU ! j = u"
      by (auto simp: in_set_conv_nth)
    with lNS lNU have "(NS ! j, u) \<in> set (zip NS NU)"
      by (auto simp: in_set_zip)
    then show "u_role u = ''school'' \<and> u_password u = Some ''admin@123''"
      using each by blast
  qed
  have names: "map u_username NU = map sc_schoolId NS"
  proof (rule nth_equalityI)
    show "length (map u_username NU) = length (map sc_schoolId NS)"
      using lNS lNU by simp
  next
    fix j
    assume "j < length (map u_username NU)"
    then have j: "j < length NU" by simp
    with lNS lNU have "(NS ! j, NU ! j) \<in> set (zip NS NU)"
      by (auto simp: in_set_zip)
    then have "u_username (NU ! j) = sc_schoolId (NS ! j)"
      using each by blast
    with j lNS lNU show "map u_username NU ! j = map sc_schoolId NS ! j"
      by simp
  qed
  from asm have ne: "batch \<noteq> []"
    and src: "csvFilePath = Some batch
       \<or> (csvFilePath = None \<and> schoolArray = Some \<lparr>sa_schools = Some batch\<rparr>)"
    by simp_all
  have "bulkUpload random s schoolArray csvFilePath
      = (Inr (Uploaded
           \<lparr>nonduplicates = \<lparr>totalNonDuplicates = length (map fst (zip fresh ids)),
                              nd_data = map fst (zip fresh ids)\<rparr>,
            duplicates = \<lparr>totalDuplicates = length old, d_data = old\<rparr>\<rparr>), s')"
    using ne src sv(1) cr(1) by (rule bulkUpload_batch)
  then have res: "bulkUpload random s schoolArray csvFilePath
      = (Inr (Uploaded
           \<lparr>nonduplicates = \<lparr>totalNonDuplicates = length fresh, nd_data = fresh\<rparr>,
            duplicates = \<lparr>totalDuplicates = K, d_data = old\<rparr>\<rparr>), s')"
    unfolding recs by (simp add: K_def old_def)
  have sch: "schools s' = schools s @ NS" and usr: "users s' = users s @ NU"
    using cr(2,4) sv(3,4) by (simp_all add: NS_def)
  have kold: "K = length old"
    by (simp add: K_def old_def)
  show "let stored = set (map sc_udisecode (schools s));
          K = length (filter (\<lambda>r. i_udisecode r \<in> stored) batch);
          fresh = filter (\<lambda>r. i_udisecode r \<notin> stored) batch
      in \<exists>summary s' NS NU.
           bulkUpload random s schoolArray csvFilePath = (Inr (Uploaded summary), s')
           \<and> totalDuplicates (duplicates summary) = K
           \<and> totalNonDuplicates (nonduplicates summary) = length batch - K
           \<and> d_data (duplicates summary) = filter (\<lambda>r. i_udisecode r \<in> stored) batch
           \<and> nd_data (nonduplicates summary) = fresh
           \<and> schools s' = schools s @ NS \<and> users s' = users s @ NU
           \<and> length NS = length batch - K \<and> length NU = length batch - K
           \<and> list_all2 ?pair fresh (zip NS NU)
           \<and> (\<forall>u \<in> set NU. u_role u = ''school'' \<and> u_password u = Some ''admin@123'')
           \<and> map u_username NU = map sc_schoolId NS"
    unfolding Let_def stored_def [symmetric] K_def [symmetric] fresh_def [symmetric]
      old_def [symmetric]
    using res nk sch usr paired lNS lNU roles names kold
    by (intro exI [of _ "\<lparr>nonduplicates = \<lparr>totalNonDuplicates = length fresh, nd_data = fresh\<rparr>,
            duplicates = \<lparr>totalDuplicates = K, d_data = old\<rparr>\<rparr>"]
          exI [of _ s'] exI [of _ NS] exI [of _ NU]) simp
qed

lemma batch3_codes: "map i_udisecode batch3 = [Some ''U1'', Some ''U3'', Some ''U4'']"
  by (simp add: batch3_def input_row_def)

lemma db0_codes: "map sc_udisecode (schools db0) = [Some ''U1'', Some ''U2'']"
  by (simp add: db0_def schoolA_def schoolB_def)

lemma length_filter_mem_map:
  "length (filter (\<lambda>x. f x \<in> A) xs) = length (filter (\<lambda>y. y \<in> A) (map f xs))"
  by (induction xs) auto

theorem bulkUpload_counts_witness:
  "\<exists>summary s'.
     bulkUpload draws db0 None (Some batch3) = (Inr (Uploaded summary), s')
     \<and> totalDuplicates (duplicates summary) = 1
     \<and> totalNonDuplicates (nonduplicates summary) = 2
     \<and> length (schools s') = 4 \<and> length (users s') = 3"
proof -
  have ne: "batch3 \<noteq> []"
    by (simp add: batch3_def)
  have d: "distinct (map i_udisecode batch3)"
    unfolding batch3_codes by simp
  have n: "length batch3 = 3"
    by (simp add: batch3_def)
  have k: "length (filter (\<lambda>r. i_udisecode r \<in> set (map sc_udisecode (schools db0))) batch3) = 1"
    unfolding length_filter_mem_map [of i_udisecode] batch3_codes db0_codes by simp
  have l: "length (schools db0) = 2" "length (users db0) = 1"
    by (simp_all add: db0_def)
  from ne d have h: "batch3 \<noteq> [] \<and> distinct (map i_udisecode batch3)
   \<and> (Some batch3 = Some batch3
       \<or> (Some batch3 = None \<and> None = Some \<lparr>sa_schools = Some batch3\<rparr>))"
    by simp
  obtain summary s' NS NU where r:
      "bulkUpload draws db0 None (Some batch3) = (Inr (Uploaded summary), s')"
      "totalDuplicates (duplicates summary) = 1"
      "totalNonDuplicates (nonduplicates summary) = 3 - 1"
      "schools s' = schools db0 @ NS" "users s' = users db0 @ NU"
      "length NS = 3 - 1" "length NU = 3 - 1"
    using bulkUpload_counts [of batch3 "Some batch3" None db0 draws] h
    unfolding Let_def k n by blast
  from r(4,6) l have "length (schools s') = 4" by simp
  moreover from r(5,7) l have "length (users s') = 3" by simp
  moreover from r(3) have "totalNonDuplicates (nonduplicates summary) = 2" by simp
  ultimately show ?thesis using r(1,2) by blast
qed

text \<open>
  The same call, evaluated. The two new schools are saved before the first account
  is created, and the draws go to the rows that save, in order.
\<close>

lemma bulkUpload_example:
  "map sc_schoolId (schools (snd (bulkUpload draws db0 None (Some batch3))))
     = [Some ''S1'', Some ''S2'', Some ''SCH123456'', Some ''SCH123457'']
   \<and> map u_username (users (snd (bulkUpload draws db0 None (Some batch3))))
     = [Some ''asha'', Some ''SCH123456'', Some ''SCH123457'']
   \<and> writes (snd (bulkUpload draws db0 None (Some batch3)))
     = [SchoolSaved (Some ''SCH123456''), SchoolSaved (Some ''SCH123457''),
        UserCreated 100, UserCreated 101]"
  by (simp add: bulkUpload_def batch3_def input_row_def find_round_def findOne_def
      db0_def schoolA_def schoolB_def trainer1_def new_school_def createUser_def
      school_account_def generateSchoolId_def decimal.simps draws_def Let_def)

text \<open>
  Two rows of one batch with the same new \<open>udisecode\<close>: both lookups run before
  either save, and both rows are accepted as new (section 4.5 of the specification).
\<close>

lemma bulkUpload_shared_code:
  "fst (bulkUpload draws db0 None (Some batch_shared))
     = Inr (Uploaded
         \<lparr>nonduplicates = \<lparr>totalNonDuplicates = 2, nd_data = batch_shared\<rparr>,
          duplicates = \<lparr>totalDuplicates = 0, d_data = []\<rparr>\<rparr>)"
  by (simp add: bulkUpload_def batch_shared_def input_row_def find_round_def findOne_def
      db0_def schoolA_def schoolB_def Let_def)

text \<open>
  Claim C5 as stated fails. The one row of the batch has no \<open>udisecode\<close>, so none
  that is present in storage: the claim's K is 0. The lookup for it finds the stored
  school that has no \<open>udisecode\<close> either, and the call reports one duplicate and no
  new school.
\<close>

theorem bulkUpload_missing_code_counterexample:
  "length (filter (\<lambda>r. \<exists>c. i_udisecode r = Some c
                          \<and> Some c \<in> set (map sc_udisecode (schools db_nocode)))
             [row_nocode]) = 0
   \<and> distinct (map i_udisecode [row_nocode])
   \<and> bulkUpload draws db_nocode None (Some [row_nocode])
       = (Inr (Uploaded
            \<lparr>nonduplicates = \<lparr>totalNonDuplicates = 0, nd_data = []\<rparr>,
             duplicates = \<lparr>totalDuplicates = 1, d_data = [row_nocode]\<rparr>\<rparr>), db_nocode)"
  by (simp add: bulkUpload_def row_nocode_def input_row_def find_round_def findOne_def
      db_nocode_def db0_def schoolA_def Let_def)

text \<open>The guard of \<open>bulkUpload\<close>: a body whose school list is missing or empty.\<close>

lemma bulkUpload_guard:
  assumes "csvFilePath = Some []
           \<or> (csvFilePath = None
               \<and> (\<exists>body. schoolArray = Some body
                     \<and> (sa_schools body = None \<or> sa_schools body = Some [])))"
  shows "bulkUpload random s schoolArray csvFilePath
           = (Inr (Rejected \<lparr>error = True, message = ''missing array''\<rparr>), s)"
  using assms by (auto simp: bulkUpload_def)

lemma bulkUpload_guard_examples:
  "bulkUpload draws db0 None (Some [])
     = (Inr (Rejected \<lparr>error = True, message = ''missing array''\<rparr>), db0)
   \<and> bulkUpload draws db0 (Some \<lparr>sa_schools = None\<rparr>) None
     = (Inr (Rejected \<lparr>error = True, message = ''missing array''\<rparr>), db0)
   \<and> bulkUpload draws db0 (Some \<lparr>sa_schools = Some []\<rparr>) None
     = (Inr (Rejected \<lparr>error = True, message = ''missing array''\<rparr>), db0)"
  by (simp add: bulkUpload_guard)


end
